theory Spec2Isabelle
  imports Complex_Main "HOL-Library.AList"
begin

section \<open>A shallow embedding of the fuzzylib Mamdani inference engine\<close>

text \<open>
  The Go type \<^verbatim>\<open>float64\<close> is modelled by \<^typ>\<open>real\<close>: arithmetic is exact, and
  NaN, the infinities and rounding are outside the model. A Go \<^verbatim>\<open>map\<close> that the code
  iterates over is an association list whose order stands for the (unspecified) iteration
  order of the run; a map that is only looked up is a HOL map. A Go \<^verbatim>\<open>int\<close> is
  \<^typ>\<open>int\<close>: the only counter, that of the sampling loops, stays below the resolution
  plus one, so it wraps for no resolution but the largest \<^verbatim>\<open>int\<close>. A function
  returning \<^verbatim>\<open>(value, error)\<close> returns a sum (\<open>Inl\<close> the error), except the
  operators, which return a value together with an optional error. \<^verbatim>\<open>math.Exp\<close> is
  \<^const>\<open>exp\<close>.
\<close>

subsection \<open>Package membership\<close>

datatype MembershipFunction =
    Triangular real real real
  | Trapezoidal real real real real
  | Gaussian real real

fun Evaluate_mf :: "MembershipFunction \<Rightarrow> real \<Rightarrow> real" where
  "Evaluate_mf (Triangular A B C) x =
     (if A = B \<and> B = C then (if x = A then 1 else 0)
      else if x \<le> A \<or> x \<ge> C then 0
      else if x = B then 1
      else if x < B then (if B = A then 1 else (x - A) / (B - A))
      else (if C = B then 1 else (C - x) / (C - B)))"
| "Evaluate_mf (Trapezoidal A B C D) x =
     (if A = B \<and> B = C \<and> C = D then (if x = A then 1 else 0)
      else if x \<le> A \<or> x \<ge> D then 0
      else if x \<ge> B \<and> x \<le> C then 1
      else if x < B then (if B = A then 1 else (x - A) / (B - A))
      else (if D = C then 1 else (D - x) / (D - C)))"
| "Evaluate_mf (Gaussian Center Width) x =
     exp (- ((x - Center) * (x - Center)) / (2 * Width * Width))"

subsection \<open>Package set\<close>

record FuzzySet =
  Name :: string
  MembershipFunc :: MembershipFunction

definition Evaluate_set :: "FuzzySet \<Rightarrow> real \<Rightarrow> real" where
  "Evaluate_set fs x = Evaluate_mf (MembershipFunc fs) x"

subsection \<open>Package variable\<close>

record FuzzyVariable =
  Name :: string
  MinValue :: real
  MaxValue :: real
  Sets :: "(string \<times> FuzzySet) list"

text \<open>\<^verbatim>\<open>Fuzzify\<close>: the membership degree of a crisp value in every set of the variable.\<close>

fun Fuzzify_loop :: "(string \<times> FuzzySet) list \<Rightarrow> real \<Rightarrow> (string \<rightharpoonup> real) \<Rightarrow> (string \<rightharpoonup> real)" where
  "Fuzzify_loop [] v result = result"
| "Fuzzify_loop ((name, fuzzySet) # rest) v result =
     Fuzzify_loop rest v (result(name \<mapsto> Evaluate_set fuzzySet v))"

definition Fuzzify :: "FuzzyVariable \<Rightarrow> real \<Rightarrow> (string \<rightharpoonup> real)" where
  "Fuzzify fv v = Fuzzify_loop (Sets fv) v Map.empty"

subsection \<open>Package operators\<close>

datatype InvalidMembershipError = InvalidMembershipError (Value: real)

text \<open>
  The three implementations of the interface \<^verbatim>\<open>Operator\<close>; the package's variables
  \<^verbatim>\<open>AND\<close>, \<^verbatim>\<open>OR\<close> and \<^verbatim>\<open>NOT\<close> hold one value of each.
\<close>

datatype Operator = MinOperator | MaxOperator | NotOperator

abbreviation AND :: Operator where "AND \<equiv> MinOperator"
abbreviation OR :: Operator where "OR \<equiv> MaxOperator"
abbreviation NOT :: Operator where "NOT \<equiv> NotOperator"

text \<open>The loop of \<^verbatim>\<open>MinOperator.Apply\<close> over \<^verbatim>\<open>values[1:]\<close>.\<close>

fun MinOperator_loop ::
  "real list \<Rightarrow> real \<Rightarrow> InvalidMembershipError option \<Rightarrow> real \<times> InvalidMembershipError option" where
  "MinOperator_loop [] mn invalidErr = (mn, invalidErr)"
| "MinOperator_loop (raw # rest) mn invalidErr =
     (if raw < 0 then
        MinOperator_loop rest (if 0 < mn then 0 else mn)
          (if invalidErr = None then Some (InvalidMembershipError raw) else invalidErr)
      else if raw > 1 then
        MinOperator_loop rest (if 1 < mn then 1 else mn)
          (if invalidErr = None then Some (InvalidMembershipError raw) else invalidErr)
      else MinOperator_loop rest (if raw < mn then raw else mn) invalidErr)"

definition MinOperator_Apply :: "real list \<Rightarrow> real \<times> InvalidMembershipError option" where
  "MinOperator_Apply values =
     (case values of
        [] \<Rightarrow> (0, None)
      | v0 # rest \<Rightarrow>
          (let (mn, invalidErr) =
                 (if v0 < 0 then (0, Some (InvalidMembershipError v0))
                  else if v0 > 1 then (1, Some (InvalidMembershipError v0))
                  else (v0, None));
               (mn, invalidErr) = MinOperator_loop rest mn invalidErr;
               mn = (if mn < 0 then 0 else mn);
               mn = (if mn > 1 then 1 else mn)
           in (mn, invalidErr)))"

text \<open>The loop of \<^verbatim>\<open>MaxOperator.Apply\<close> over \<^verbatim>\<open>values[1:]\<close>.\<close>

fun MaxOperator_loop ::
  "real list \<Rightarrow> real \<Rightarrow> InvalidMembershipError option \<Rightarrow> real \<times> InvalidMembershipError option" where
  "MaxOperator_loop [] mx invalidErr = (mx, invalidErr)"
| "MaxOperator_loop (raw # rest) mx invalidErr =
     (if raw < 0 then
        MaxOperator_loop rest (if 0 > mx then 0 else mx)
          (if invalidErr = None then Some (InvalidMembershipError raw) else invalidErr)
      else if raw > 1 then
        MaxOperator_loop rest (if 1 > mx then 1 else mx)
          (if invalidErr = None then Some (InvalidMembershipError raw) else invalidErr)
      else MaxOperator_loop rest (if raw > mx then raw else mx) invalidErr)"

definition MaxOperator_Apply :: "real list \<Rightarrow> real \<times> InvalidMembershipError option" where
  "MaxOperator_Apply values =
     (case values of
        [] \<Rightarrow> (0, None)
      | v0 # rest \<Rightarrow>
          (let (mx, invalidErr) =
                 (if v0 < 0 then (0, Some (InvalidMembershipError v0))
                  else if v0 > 1 then (1, Some (InvalidMembershipError v0))
                  else (v0, None));
               (mx, invalidErr) = MaxOperator_loop rest mx invalidErr;
               mx = (if mx < 0 then 0 else mx);
               mx = (if mx > 1 then 1 else mx)
           in (mx, invalidErr)))"

definition NotOperator_Apply :: "real list \<Rightarrow> real \<times> InvalidMembershipError option" where
  "NotOperator_Apply values =
     (case values of
        [] \<Rightarrow> (1, None)
      | v # rest \<Rightarrow>
          (if v < 0 then (1 - 0, Some (InvalidMembershipError v))
           else if v > 1 then (1 - 1, Some (InvalidMembershipError v))
           else (1 - v, None)))"

text \<open>Dynamic dispatch of \<^verbatim>\<open>Apply\<close> through the interface.\<close>

fun Apply :: "Operator \<Rightarrow> real list \<Rightarrow> real \<times> InvalidMembershipError option" where
  "Apply MinOperator values = MinOperator_Apply values"
| "Apply MaxOperator values = MaxOperator_Apply values"
| "Apply NotOperator values = NotOperator_Apply values"

text \<open>Vocabulary for stating the operator contracts: a degree outside \<open>[0,1]\<close>, and the
  nearest bound of \<open>[0,1]\<close>.\<close>

definition out_of_range :: "real \<Rightarrow> bool" where
  "out_of_range v = (v < 0 \<or> v > 1)"

definition clamp01 :: "real \<Rightarrow> real" where
  "clamp01 v = (if v < 0 then 0 else if v > 1 then 1 else v)"


subsection \<open>Package rule\<close>

record RuleCondition =
  Variable :: string
  Set :: string
  Negated :: bool

record Rule =
  Conditions :: "RuleCondition list"
  Output :: RuleCondition
  Weight :: real
  Operator :: Operator

datatype rule_error =
    NoConditions
  | OperatorFailed string string InvalidMembershipError

text \<open>
  The loop of \<^verbatim>\<open>Rule.Evaluate\<close> that fills the slice \<^verbatim>\<open>values\<close>, which
  \<^verbatim>\<open>make\<close> created with one zero per condition. The index never leaves the slice.
\<close>

fun Evaluate_loop ::
  "(string \<rightharpoonup> (string \<rightharpoonup> real)) \<Rightarrow> RuleCondition list \<Rightarrow> nat \<Rightarrow> real list \<Rightarrow> real list" where
  "Evaluate_loop membershipMap [] i values = values"
| "Evaluate_loop membershipMap (cond # rest) i values =
     Evaluate_loop membershipMap rest (i + 1)
       (case membershipMap (Variable cond) of
          None \<Rightarrow> values
        | Some varMap \<Rightarrow>
            (case varMap (Set cond) of
               None \<Rightarrow> values
             | Some degree \<Rightarrow>
                 (if Negated cond then values[i := 1 - degree] else values[i := degree])))"

definition Evaluate :: "Rule \<Rightarrow> (string \<rightharpoonup> (string \<rightharpoonup> real)) \<Rightarrow> rule_error + real" where
  "Evaluate r membershipMap =
     (if length (Conditions r) = 0 then Inl NoConditions
      else
        (let values = Evaluate_loop membershipMap (Conditions r) 0
                        (replicate (length (Conditions r)) 0);
             (result, err) = Apply (Operator r) values
         in case err of
              Some e \<Rightarrow> Inl (OperatorFailed (Variable (Output r)) (Set (Output r)) e)
            | None \<Rightarrow> Inr (result * Weight r)))"

subsection \<open>Package inference: the engine and rule registration\<close>

definition DefaultResolution :: int where
  "DefaultResolution = 1000"

definition epsilon :: real where
  "epsilon = 1 / 1000000000"

definition DefuzzCOG :: string where "DefuzzCOG = ''centroid''"
definition DefuzzMOM :: string where "DefuzzMOM = ''mom''"
definition DefuzzFOM :: string where "DefuzzFOM = ''fom''"
definition DefuzzLOM :: string where "DefuzzLOM = ''lom''"
definition DefuzzSOM :: string where "DefuzzSOM = ''som''"

record MamdaniInferenceSystem =
  InputVariables :: "(string \<times> FuzzyVariable) list"
  OutputVariables :: "(string \<times> FuzzyVariable) list"
  Rules :: "Rule list"
  Resolution :: int
  DefuzzMethod :: string

datatype add_rule_error =
    RuleWithoutConditions
  | NoOutputVariable string
  | NoOutputSet string string
  | NoInputVariable nat string
  | NoInputSet nat string string

fun AddRule_conditions ::
  "(string \<times> FuzzyVariable) list \<Rightarrow> nat \<Rightarrow> RuleCondition list \<Rightarrow> add_rule_error option" where
  "AddRule_conditions inputVariables i [] = None"
| "AddRule_conditions inputVariables i (cond # rest) =
     (case map_of inputVariables (Variable cond) of
        None \<Rightarrow> Some (NoInputVariable (i + 1) (Variable cond))
      | Some inputVar \<Rightarrow>
          (case map_of (Sets inputVar) (Set cond) of
             None \<Rightarrow> Some (NoInputSet (i + 1) (Set cond) (Variable cond))
           | Some s \<Rightarrow> AddRule_conditions inputVariables (i + 1) rest))"

definition AddRule :: "MamdaniInferenceSystem \<Rightarrow> Rule \<Rightarrow> add_rule_error + MamdaniInferenceSystem" where
  "AddRule fis r =
     (if length (Conditions r) = 0 then Inl RuleWithoutConditions
      else
        (case map_of (OutputVariables fis) (Variable (Output r)) of
           None \<Rightarrow> Inl (NoOutputVariable (Variable (Output r)))
         | Some outputVar \<Rightarrow>
             (case map_of (Sets outputVar) (Set (Output r)) of
                None \<Rightarrow> Inl (NoOutputSet (Set (Output r)) (Variable (Output r)))
              | Some s \<Rightarrow>
                  (case AddRule_conditions (InputVariables fis) 0 (Conditions r) of
                     Some e \<Rightarrow> Inl e
                   | None \<Rightarrow> Inr (fis\<lparr>Rules := Rules fis @ [r]\<rparr>)))))"

subsection \<open>Package inference: defuzzification\<close>

datatype defuzz_error = NoRulesFired

text \<open>
  The inner loop over the aggregation map, which the three defuzzifiers repeat word for
  word: the largest of \<open>0\<close> and the products \<^verbatim>\<open>outputSet.Evaluate(x) * strength\<close> of the
  entries whose set the variable has.
\<close>

fun memberships_loop :: "FuzzyVariable \<Rightarrow> (string \<times> real) list \<Rightarrow> real \<Rightarrow> real \<Rightarrow> real" where
  "memberships_loop outputVar [] x maxMembership = maxMembership"
| "memberships_loop outputVar ((setName, strength) # rest) x maxMembership =
     memberships_loop outputVar rest x
       (case map_of (Sets outputVar) setName of
          Some outputSet \<Rightarrow>
            (let degree = Evaluate_set outputSet x * strength
             in if degree > maxMembership then degree else maxMembership)
        | None \<Rightarrow> maxMembership)"

function cog_loop ::
  "FuzzyVariable \<Rightarrow> (string \<times> real) list \<Rightarrow> int \<Rightarrow> real \<Rightarrow> int \<Rightarrow> real \<Rightarrow> real \<Rightarrow> real \<times> real" where
  "cog_loop outputVar memberships resolution step i numerator denominator =
     (if i \<le> resolution then
        cog_loop outputVar memberships resolution step (i + 1)
          (numerator + (MinValue outputVar + of_int i * step)
             * memberships_loop outputVar memberships (MinValue outputVar + of_int i * step) 0)
          (denominator
             + memberships_loop outputVar memberships (MinValue outputVar + of_int i * step) 0)
      else (numerator, denominator))"
  by pat_completeness auto
termination
  by (relation "measure (\<lambda>(outputVar, memberships, resolution, step, i, numerator, denominator).
        nat (resolution + 1 - i))") auto

declare cog_loop.simps [simp del]

definition defuzzifyCOGWithResolution ::
  "FuzzyVariable \<Rightarrow> (string \<times> real) list \<Rightarrow> int \<Rightarrow> defuzz_error + real" where
  "defuzzifyCOGWithResolution outputVar memberships resolution0 =
     (if length memberships = 0 then Inl NoRulesFired
      else
        (let resolution = (if resolution0 \<le> 0 then DefaultResolution else resolution0);
             step = (MaxValue outputVar - MinValue outputVar) / of_int resolution;
             (numerator, denominator) = cog_loop outputVar memberships resolution step 0 0 0
         in if denominator = 0 then Inl NoRulesFired else Inr (numerator / denominator)))"

function mom_loop ::
  "FuzzyVariable \<Rightarrow> (string \<times> real) list \<Rightarrow> int \<Rightarrow> real \<Rightarrow> int \<Rightarrow> real \<Rightarrow> real list
     \<Rightarrow> real \<times> real list" where
  "mom_loop outputVar memberships resolution step i maxMembership points =
     (if i \<le> resolution then
        (if i = 0 \<or> memberships_loop outputVar memberships (MinValue outputVar + of_int i * step) 0
                      > maxMembership
         then mom_loop outputVar memberships resolution step (i + 1)
                (memberships_loop outputVar memberships (MinValue outputVar + of_int i * step) 0)
                [MinValue outputVar + of_int i * step]
         else if \<bar>memberships_loop outputVar memberships (MinValue outputVar + of_int i * step) 0
                    - maxMembership\<bar> < epsilon
         then mom_loop outputVar memberships resolution step (i + 1) maxMembership
                (points @ [MinValue outputVar + of_int i * step])
         else mom_loop outputVar memberships resolution step (i + 1) maxMembership points)
      else (maxMembership, points))"
  by pat_completeness auto
termination
  by (relation "measure (\<lambda>(outputVar, memberships, resolution, step, i, maxMembership, points).
        nat (resolution + 1 - i))") auto

declare mom_loop.simps [simp del]

definition defuzzifyMOMWithResolution ::
  "FuzzyVariable \<Rightarrow> (string \<times> real) list \<Rightarrow> int \<Rightarrow> defuzz_error + real" where
  "defuzzifyMOMWithResolution outputVar memberships resolution0 =
     (if length memberships = 0 then Inl NoRulesFired
      else
        (let resolution = (if resolution0 \<le> 0 then DefaultResolution else resolution0);
             step = (MaxValue outputVar - MinValue outputVar) / of_int resolution;
             (maxMembership, points) = mom_loop outputVar memberships resolution step 0 0 []
         in if length points = 0 \<or> maxMembership = 0 then Inl NoRulesFired
            else Inr (fold (\<lambda>p sum. sum + p) points 0 / of_nat (length points))))"

function fom_loop ::
  "FuzzyVariable \<Rightarrow> (string \<times> real) list \<Rightarrow> int \<Rightarrow> real \<Rightarrow> int \<Rightarrow> real \<Rightarrow> real \<Rightarrow> real \<times> real" where
  "fom_loop outputVar memberships resolution step i maxMembership result =
     (if i \<le> resolution then
        (if memberships_loop outputVar memberships (MinValue outputVar + of_int i * step) 0
              > maxMembership
         then fom_loop outputVar memberships resolution step (i + 1)
                (memberships_loop outputVar memberships (MinValue outputVar + of_int i * step) 0)
                (MinValue outputVar + of_int i * step)
         else fom_loop outputVar memberships resolution step (i + 1) maxMembership result)
      else (maxMembership, result))"
  by pat_completeness auto
termination
  by (relation "measure (\<lambda>(outputVar, memberships, resolution, step, i, maxMembership, result).
        nat (resolution + 1 - i))") auto

declare fom_loop.simps [simp del]

definition defuzzifyFOMWithResolution ::
  "FuzzyVariable \<Rightarrow> (string \<times> real) list \<Rightarrow> int \<Rightarrow> defuzz_error + real" where
  "defuzzifyFOMWithResolution outputVar memberships resolution0 =
     (if length memberships = 0 then Inl NoRulesFired
      else
        (let resolution = (if resolution0 \<le> 0 then DefaultResolution else resolution0);
             step = (MaxValue outputVar - MinValue outputVar) / of_int resolution;
             (maxMembership, result) =
               fom_loop outputVar memberships resolution step 0 0 (MinValue outputVar)
         in if maxMembership = 0 then Inl NoRulesFired else Inr result))"

subsection \<open>Package inference: \<^verbatim>\<open>Infer\<close>\<close>

datatype error =
    NoInputVariables
  | NoOutputVariables
  | NoRules
  | MissingInput string
  | OutOfBounds real string real real
  | RuleEvaluationFailed rule_error
  | DefuzzificationFailed string defuzz_error

text \<open>The validation loop over \<^verbatim>\<open>fis.InputVariables\<close>: it returns at the first variable
  it meets that is absent from \<^verbatim>\<open>inputs\<close> or whose value is outside the domain.\<close>

fun validate_inputs :: "(string \<times> FuzzyVariable) list \<Rightarrow> (string \<times> real) list \<Rightarrow> error option" where
  "validate_inputs [] inputs = None"
| "validate_inputs ((varName, inputVar) # rest) inputs =
     (case map_of inputs varName of
        None \<Rightarrow> Some (MissingInput varName)
      | Some v \<Rightarrow>
          (if v < MinValue inputVar \<or> v > MaxValue inputVar
           then Some (OutOfBounds v varName (MinValue inputVar) (MaxValue inputVar))
           else validate_inputs rest inputs))"

text \<open>Step 1, the loop over \<^verbatim>\<open>inputs\<close> that fills \<^verbatim>\<open>membershipMap\<close>.\<close>

fun fuzzify_inputs ::
  "(string \<times> FuzzyVariable) list \<Rightarrow> (string \<times> real) list \<Rightarrow> (string \<rightharpoonup> (string \<rightharpoonup> real))
     \<Rightarrow> (string \<rightharpoonup> (string \<rightharpoonup> real))" where
  "fuzzify_inputs inputVariables [] membershipMap = membershipMap"
| "fuzzify_inputs inputVariables ((varName, crispValue) # rest) membershipMap =
     fuzzify_inputs inputVariables rest
       (case map_of inputVariables varName of
          Some inputVar \<Rightarrow> membershipMap(varName \<mapsto> Fuzzify inputVar crispValue)
        | None \<Rightarrow> membershipMap)"

text \<open>Step 2: one empty aggregation map per output variable, then the loop over the rules
  with MAX aggregation per output set.\<close>

fun init_outputs ::
  "(string \<times> FuzzyVariable) list \<Rightarrow> (string \<rightharpoonup> (string \<times> real) list)
     \<Rightarrow> (string \<rightharpoonup> (string \<times> real) list)" where
  "init_outputs [] outputMemberships = outputMemberships"
| "init_outputs ((outputName, outputVar) # rest) outputMemberships =
     init_outputs rest (outputMemberships(outputName \<mapsto> []))"

fun fire_rules ::
  "Rule list \<Rightarrow> (string \<rightharpoonup> (string \<rightharpoonup> real)) \<Rightarrow> (string \<rightharpoonup> (string \<times> real) list)
     \<Rightarrow> error + (string \<rightharpoonup> (string \<times> real) list)" where
  "fire_rules [] membershipMap outputMemberships = Inr outputMemberships"
| "fire_rules (r # rest) membershipMap outputMemberships =
     (case Evaluate r membershipMap of
        Inl err \<Rightarrow> Inl (RuleEvaluationFailed err)
      | Inr firingStrength \<Rightarrow>
          fire_rules rest membershipMap
            (case outputMemberships (Variable (Output r)) of
               None \<Rightarrow> outputMemberships
             | Some sets \<Rightarrow>
                 (case map_of sets (Set (Output r)) of
                    Some current \<Rightarrow>
                      (if firingStrength > current
                       then outputMemberships(Variable (Output r) \<mapsto>
                              AList.update (Set (Output r)) firingStrength sets)
                       else outputMemberships)
                  | None \<Rightarrow>
                      outputMemberships(Variable (Output r) \<mapsto>
                        AList.update (Set (Output r)) firingStrength sets))))"

text \<open>Step 3: the \<^verbatim>\<open>switch\<close> on \<^verbatim>\<open>fis.DefuzzMethod\<close> and the loop over the output
  variables. Reading a key that a Go map lacks gives the nil map, which has length 0.\<close>

definition defuzzify ::
  "string \<Rightarrow> FuzzyVariable \<Rightarrow> (string \<times> real) list \<Rightarrow> int \<Rightarrow> defuzz_error + real" where
  "defuzzify method outputVar memberships resolution =
     (if method = DefuzzCOG then defuzzifyCOGWithResolution outputVar memberships resolution
      else if method = DefuzzMOM then defuzzifyMOMWithResolution outputVar memberships resolution
      else if method = DefuzzFOM \<or> method = DefuzzLOM \<or> method = DefuzzSOM
        then defuzzifyFOMWithResolution outputVar memberships resolution
      else defuzzifyMOMWithResolution outputVar memberships resolution)"

fun defuzzify_outputs ::
  "MamdaniInferenceSystem \<Rightarrow> (string \<times> FuzzyVariable) list \<Rightarrow> (string \<rightharpoonup> (string \<times> real) list)
     \<Rightarrow> (string \<rightharpoonup> real) \<Rightarrow> error + (string \<rightharpoonup> real)" where
  "defuzzify_outputs fis [] outputMemberships results = Inr results"
| "defuzzify_outputs fis ((varName, outputVar) # rest) outputMemberships results =
     (case defuzzify (DefuzzMethod fis) outputVar
             (case outputMemberships varName of Some m \<Rightarrow> m | None \<Rightarrow> [])
             (Resolution fis) of
        Inl err \<Rightarrow> Inl (DefuzzificationFailed varName err)
      | Inr result \<Rightarrow>
          defuzzify_outputs fis rest outputMemberships (results(varName \<mapsto> result)))"

definition Infer :: "MamdaniInferenceSystem \<Rightarrow> (string \<times> real) list \<Rightarrow> error + (string \<rightharpoonup> real)" where
  "Infer fis inputs =
     (if length (InputVariables fis) = 0 then Inl NoInputVariables
      else if length (OutputVariables fis) = 0 then Inl NoOutputVariables
      else if length (Rules fis) = 0 then Inl NoRules
      else
        (case validate_inputs (InputVariables fis) inputs of
           Some err \<Rightarrow> Inl err
         | None \<Rightarrow>
             (case fire_rules (Rules fis)
                     (fuzzify_inputs (InputVariables fis) inputs Map.empty)
                     (init_outputs (OutputVariables fis) Map.empty) of
                Inl err \<Rightarrow> Inl err
              | Inr outputMemberships \<Rightarrow>
                  defuzzify_outputs fis (OutputVariables fis) outputMemberships Map.empty)))"

subsection \<open>The text of the errors\<close>

text \<open>
  A model of the verb \<^verbatim>\<open>%.Nf\<close> of Go's \<^verbatim>\<open>fmt\<close> on the reals: an optional minus
  sign, the integer part in decimal, a point and \<open>N\<close> decimals, rounded to nearest with
  ties to even.
\<close>

definition digit_char :: "nat \<Rightarrow> char" where
  "digit_char d = ''0123456789'' ! (d mod 10)"

function digits_of_nat :: "nat \<Rightarrow> string" where
  "digits_of_nat n =
     (if n < 10 then [digit_char n] else digits_of_nat (n div 10) @ [digit_char (n mod 10)])"
  by pat_completeness auto
termination
  by (relation "measure (\<lambda>n. n)") auto

declare digits_of_nat.simps [simp del]

definition round_half_even :: "real \<Rightarrow> int" where
  "round_half_even y =
     (if y - of_int \<lfloor>y\<rfloor> < 1 / 2 then \<lfloor>y\<rfloor>
      else if y - of_int \<lfloor>y\<rfloor> > 1 / 2 then \<lfloor>y\<rfloor> + 1
      else if even \<lfloor>y\<rfloor> then \<lfloor>y\<rfloor> else \<lfloor>y\<rfloor> + 1)"

definition fmt_f :: "nat \<Rightarrow> real \<Rightarrow> string" where
  "fmt_f prec v =
     (if v < 0 then ''-'' else [])
       @ digits_of_nat (nat (round_half_even (\<bar>v\<bar> * 10 ^ prec)) div 10 ^ prec)
       @ ''.''
       @ map (\<lambda>k. digit_char (nat (round_half_even (\<bar>v\<bar> * 10 ^ prec)) div 10 ^ k))
           (rev [0..<prec])"

definition rule_error_text :: "rule_error \<Rightarrow> string" where
  "rule_error_text e =
     (case e of
        NoConditions \<Rightarrow> ''cannot evaluate rule with no conditions''
      | OperatorFailed variable s ime \<Rightarrow>
          ''error applying operator for rule output '' @ [CHR 0x27] @ variable @ ''.'' @ s
            @ [CHR 0x27] @ '': membership degree '' @ fmt_f 4 (Value ime)
            @ '' is outside [0, 1]'')"

definition defuzz_error_text :: "defuzz_error \<Rightarrow> string" where
  "defuzz_error_text e = ''no rules fired: all membership degrees are zero''"

definition error_text :: "error \<Rightarrow> string" where
  "error_text e =
     (case e of
        NoInputVariables \<Rightarrow> ''inference system has no input variables''
      | NoOutputVariables \<Rightarrow> ''inference system has no output variables''
      | NoRules \<Rightarrow> ''inference system has no rules''
      | MissingInput varName \<Rightarrow> ''missing required input variable: '' @ varName
      | OutOfBounds v varName lo hi \<Rightarrow>
          ''input value '' @ fmt_f 2 v @ '' for variable '' @ [CHR 0x27] @ varName
            @ [CHR 0x27] @ '' is out of bounds ['' @ fmt_f 2 lo @ '', '' @ fmt_f 2 hi @ '']''
      | RuleEvaluationFailed err \<Rightarrow> ''error evaluating rule: '' @ rule_error_text err
      | DefuzzificationFailed varName err \<Rightarrow>
          ''defuzzification failed for variable '' @ [CHR 0x27] @ varName @ [CHR 0x27]
            @ '': '' @ defuzz_error_text err)"



subsection \<open>Vocabulary for the contract of \<^verbatim>\<open>Rule.Evaluate\<close>\<close>

text \<open>What one condition contributes: the degree looked up under its variable and its
  set, complemented when the condition is negated, and \<open>0\<close> when either key is absent.\<close>

definition contributed_value :: "(string \<rightharpoonup> (string \<rightharpoonup> real)) \<Rightarrow> RuleCondition \<Rightarrow> real" where
  "contributed_value membershipMap cond =
     (case membershipMap (Variable cond) of
        None \<Rightarrow> 0
      | Some varMap \<Rightarrow>
          (case varMap (Set cond) of
             None \<Rightarrow> 0
           | Some degree \<Rightarrow> (if Negated cond then 1 - degree else degree)))"

text \<open>The values an operator reads (\<^verbatim>\<open>NOT\<close> reads the first only), and what it makes
  of values that lie in \<open>[0,1]\<close>.\<close>

definition operator_reads :: "Operator \<Rightarrow> real list \<Rightarrow> real list" where
  "operator_reads op vs = (case op of NotOperator \<Rightarrow> take 1 vs | _ \<Rightarrow> vs)"

definition combine :: "Operator \<Rightarrow> real list \<Rightarrow> real" where
  "combine op vs =
     (case op of
        MinOperator \<Rightarrow> Min (set vs)
      | MaxOperator \<Rightarrow> Max (set vs)
      | NotOperator \<Rightarrow> 1 - hd vs)"

text \<open>A rule and two membership maps to run \<^verbatim>\<open>Evaluate\<close> on.\<close>

definition rule_hot_and_not_dry :: Rule where
  "rule_hot_and_not_dry =
     \<lparr>Conditions = [\<lparr>Variable = ''Temperature'', Set = ''Hot'', Negated = False\<rparr>,
                    \<lparr>Variable = ''Humidity'', Set = ''Dry'', Negated = True\<rparr>],
      Output = \<lparr>Variable = ''FanSpeed'', Set = ''High'', Negated = False\<rparr>,
      Weight = 1 / 2,
      Operator = AND\<rparr>"

definition degrees_valid :: "string \<rightharpoonup> (string \<rightharpoonup> real)" where
  "degrees_valid = [''Temperature'' \<mapsto> [''Hot'' \<mapsto> 9 / 10], ''Humidity'' \<mapsto> [''Dry'' \<mapsto> 3 / 10]]"

definition degrees_invalid :: "string \<rightharpoonup> (string \<rightharpoonup> real)" where
  "degrees_invalid = [''Temperature'' \<mapsto> [''Hot'' \<mapsto> 3 / 2], ''Humidity'' \<mapsto> [''Dry'' \<mapsto> 3 / 10]]"

subsection \<open>Vocabulary for the contracts of the defuzzifiers\<close>

text \<open>The sample points \<open>x\<^sub>i = min + i * (max - min) / R\<close> for \<open>i = 0..R\<close>.\<close>

definition sample_point :: "FuzzyVariable \<Rightarrow> int \<Rightarrow> int \<Rightarrow> real" where
  "sample_point outputVar R i =
     MinValue outputVar + of_int i * (MaxValue outputVar - MinValue outputVar) / of_int R"

definition sample_points :: "FuzzyVariable \<Rightarrow> int \<Rightarrow> real list" where
  "sample_points outputVar R = map (sample_point outputVar R) [0..R]"

text \<open>The aggregated membership \<open>m(x)\<close>: the maximum over the entries of the aggregation
  map of the set's membership at \<open>x\<close> times the entry's strength.\<close>

definition clip_max :: "FuzzyVariable \<Rightarrow> (string \<times> real) list \<Rightarrow> real \<Rightarrow> real" where
  "clip_max outputVar memberships x =
     Max ((\<lambda>(setName, strength).
             Evaluate_set (the (map_of (Sets outputVar) setName)) x * strength)
          ` set memberships)"

text \<open>An aggregation map of an output variable: every key names a set of the variable and
  every strength is at least \<open>0\<close>, as \<^verbatim>\<open>AddRule\<close> and rule weights in \<open>[0,1]\<close> ensure.\<close>

definition aggregation_for :: "FuzzyVariable \<Rightarrow> (string \<times> real) list \<Rightarrow> bool" where
  "aggregation_for outputVar memberships =
     list_all (\<lambda>(setName, strength). map_of (Sets outputVar) setName \<noteq> None \<and> 0 \<le> strength)
       memberships"

text \<open>The maximum of \<open>m\<close> over the scan, and the arithmetic mean of a list of points.\<close>

definition peak :: "FuzzyVariable \<Rightarrow> (string \<times> real) list \<Rightarrow> int \<Rightarrow> real" where
  "peak outputVar memberships R = Max (clip_max outputVar memberships ` set (sample_points outputVar R))"

definition mean :: "real list \<Rightarrow> real" where
  "mean points = sum_list points / of_nat (length points)"

text \<open>
  Mean of maximum in the words of the specification: the mean of the sample points whose
  aggregated membership lies within \<open>epsilon\<close> of the maximum over the scan; a failure when
  the aggregation map is empty or no positive maximum is found.
\<close>

definition mom_spec :: "FuzzyVariable \<Rightarrow> (string \<times> real) list \<Rightarrow> int \<Rightarrow> defuzz_error + real" where
  "mom_spec outputVar memberships R =
     (if memberships = [] \<or> \<not> 0 < peak outputVar memberships R then Inl NoRulesFired
      else Inr (mean (filter
             (\<lambda>x. \<bar>clip_max outputVar memberships x - peak outputVar memberships R\<bar> < epsilon)
             (sample_points outputVar R))))"

text \<open>
  First of maximum in the words of the specification: the first sample point, in ascending
  order, whose aggregated membership strictly exceeds all previously seen values (those of
  the earlier points, and the \<open>0\<close> the scan starts from); a failure when the aggregation
  map is empty or every value is \<open>0\<close>.
\<close>

definition fom_spec :: "FuzzyVariable \<Rightarrow> (string \<times> real) list \<Rightarrow> int \<Rightarrow> defuzz_error + real" where
  "fom_spec outputVar memberships R =
     (if memberships = []
         \<or> list_all (\<lambda>x. clip_max outputVar memberships x = 0) (sample_points outputVar R)
      then Inl NoRulesFired
      else
        (case List.find
                (\<lambda>i. 0 < clip_max outputVar memberships (sample_point outputVar R i)
                     \<and> list_all
                         (\<lambda>j. clip_max outputVar memberships (sample_point outputVar R j)
                               < clip_max outputVar memberships (sample_point outputVar R i))
                         [0..i - 1])
                [0..R] of
           Some i \<Rightarrow> Inr (sample_point outputVar R i)
         | None \<Rightarrow> Inl NoRulesFired))"

text \<open>Output variables and aggregation maps to run the defuzzifiers on.\<close>

definition fan_speed :: FuzzyVariable where
  "fan_speed =
     \<lparr>FuzzyVariable.Name = ''FanSpeed'', MinValue = 0, MaxValue = 100,
      Sets = [(''Low'', \<lparr>FuzzySet.Name = ''Low'', MembershipFunc = Triangular 0 0 50\<rparr>),
              (''High'', \<lparr>FuzzySet.Name = ''High'', MembershipFunc = Triangular 50 100 100\<rparr>)]\<rparr>"

definition low_half_high_full :: "(string \<times> real) list" where
  "low_half_high_full = [(''Low'', 1 / 2), (''High'', 1)]"

definition valve :: FuzzyVariable where
  "valve =
     \<lparr>FuzzyVariable.Name = ''Valve'', MinValue = 0, MaxValue = 2,
      Sets = [(''Closed'', \<lparr>FuzzySet.Name = ''Closed'',
                 MembershipFunc = Trapezoidal (- 1) (- 1 / 2) (1 / 4) (1 / 2)\<rparr>),
              (''Open'', \<lparr>FuzzySet.Name = ''Open'',
                 MembershipFunc = Trapezoidal (1 / 2) (3 / 4) (5 / 2) 3\<rparr>)]\<rparr>"

definition nearly_tied :: "(string \<times> real) list" where
  "nearly_tied = [(''Closed'', 1 / 2), (''Open'', 1 / 2 + 1 / 10000000000)]"

definition nearly_tied_mirrored :: "(string \<times> real) list" where
  "nearly_tied_mirrored = [(''Closed'', 1 / 2 + 1 / 10000000000), (''Open'', 1 / 2)]"

subsection \<open>Vocabulary for the contract of \<^verbatim>\<open>Infer\<close>\<close>

text \<open>A value inside the domain of a variable, both ends included, and an inputs map
  that provides such a value for a variable.\<close>

definition in_domain :: "FuzzyVariable \<Rightarrow> real \<Rightarrow> bool" where
  "in_domain v x = (MinValue v \<le> x \<and> x \<le> MaxValue v)"

definition provided_in_domain :: "(string \<times> real) list \<Rightarrow> string \<times> FuzzyVariable \<Rightarrow> bool" where
  "provided_in_domain inputs entry =
     (case map_of inputs (fst entry) of None \<Rightarrow> False | Some x \<Rightarrow> in_domain (snd entry) x)"

definition valid_inputs :: "MamdaniInferenceSystem \<Rightarrow> (string \<times> real) list \<Rightarrow> bool" where
  "valid_inputs fis inputs = list_all (provided_in_domain inputs) (InputVariables fis)"

text \<open>
  A configured engine: at least one input variable, one output variable and one rule; the
  keys of each map of variables are distinct; every variable has \<open>min < max\<close>, as
  \<^verbatim>\<open>NewFuzzyVariable\<close> demands; every rule passes the checks of \<^verbatim>\<open>AddRule\<close>.
\<close>

definition configured :: "MamdaniInferenceSystem \<Rightarrow> bool" where
  "configured fis =
     (InputVariables fis \<noteq> [] \<and> OutputVariables fis \<noteq> [] \<and> Rules fis \<noteq> []
      \<and> distinct (map fst (InputVariables fis)) \<and> distinct (map fst (OutputVariables fis))
      \<and> list_all (\<lambda>entry. MinValue (snd entry) < MaxValue (snd entry)) (InputVariables fis)
      \<and> list_all (\<lambda>entry. MinValue (snd entry) < MaxValue (snd entry)) (OutputVariables fis)
      \<and> list_all (\<lambda>r. case AddRule fis r of Inr fis' \<Rightarrow> True | Inl err \<Rightarrow> False) (Rules fis))"

text \<open>The aggregation map that \<^verbatim>\<open>Infer\<close> hands to the defuzzifier for an output
  variable.\<close>

definition aggregation_of ::
  "MamdaniInferenceSystem \<Rightarrow> (string \<times> real) list \<Rightarrow> string \<Rightarrow> (string \<times> real) list" where
  "aggregation_of fis inputs varName =
     (case fire_rules (Rules fis)
             (fuzzify_inputs (InputVariables fis) inputs Map.empty)
             (init_outputs (OutputVariables fis) Map.empty) of
        Inl err \<Rightarrow> []
      | Inr outputMemberships \<Rightarrow>
          (case outputMemberships varName of Some m \<Rightarrow> m | None \<Rightarrow> []))"

text \<open>Extra entries: \<open>inputs'\<close> holds every entry of \<open>inputs\<close>, and no key it adds is the
  name of an input variable of the engine.\<close>

definition adds_unconfigured ::
  "MamdaniInferenceSystem \<Rightarrow> (string \<times> real) list \<Rightarrow> (string \<times> real) list \<Rightarrow> bool" where
  "adds_unconfigured fis inputs inputs' =
     (distinct (map fst inputs) \<and> distinct (map fst inputs')
      \<and> list_all (\<lambda>entry. map_of inputs' (fst entry) = Some (snd entry)) inputs
      \<and> list_all (\<lambda>entry. map_of inputs (fst entry) = None
                            \<longrightarrow> map_of (InputVariables fis) (fst entry) = None) inputs')"

text \<open>A membership map all of whose degrees lie in \<open>[0,1]\<close>.\<close>

definition degrees_in_range :: "(string \<rightharpoonup> (string \<rightharpoonup> real)) \<Rightarrow> bool" where
  "degrees_in_range membershipMap =
     (\<forall>varName varMap setName degree.
        membershipMap varName = Some varMap \<and> varMap setName = Some degree
          \<longrightarrow> 0 \<le> degree \<and> degree \<le> 1)"

text \<open>Two engines to run \<^verbatim>\<open>Infer\<close> on: a thermostat with one input, and the same with
  a second input whose name the iteration over the input variables meets first.\<close>

definition temperature :: FuzzyVariable where
  "temperature =
     \<lparr>FuzzyVariable.Name = ''Temperature'', MinValue = 0, MaxValue = 50,
      Sets = [(''Cold'', \<lparr>FuzzySet.Name = ''Cold'', MembershipFunc = Triangular 0 0 25\<rparr>),
              (''Hot'', \<lparr>FuzzySet.Name = ''Hot'', MembershipFunc = Triangular 25 50 50\<rparr>)]\<rparr>"

definition humidity :: FuzzyVariable where
  "humidity =
     \<lparr>FuzzyVariable.Name = ''Humidity'', MinValue = 0, MaxValue = 100,
      Sets = [(''Dry'', \<lparr>FuzzySet.Name = ''Dry'', MembershipFunc = Triangular 0 0 60\<rparr>),
              (''Wet'', \<lparr>FuzzySet.Name = ''Wet'', MembershipFunc = Triangular 40 100 100\<rparr>)]\<rparr>"

definition rule_cold_low :: Rule where
  "rule_cold_low =
     \<lparr>Conditions = [\<lparr>Variable = ''Temperature'', Set = ''Cold'', Negated = False\<rparr>],
      Output = \<lparr>Variable = ''FanSpeed'', Set = ''Low'', Negated = False\<rparr>,
      Weight = 1, Operator = AND\<rparr>"

definition rule_hot_high :: Rule where
  "rule_hot_high =
     \<lparr>Conditions = [\<lparr>Variable = ''Temperature'', Set = ''Hot'', Negated = False\<rparr>],
      Output = \<lparr>Variable = ''FanSpeed'', Set = ''High'', Negated = False\<rparr>,
      Weight = 1, Operator = AND\<rparr>"

definition thermostat :: MamdaniInferenceSystem where
  "thermostat =
     \<lparr>InputVariables = [(''Temperature'', temperature)],
      OutputVariables = [(''FanSpeed'', fan_speed)],
      Rules = [rule_cold_low, rule_hot_high],
      Resolution = 4,
      DefuzzMethod = DefuzzCOG\<rparr>"

definition thermostat_two_inputs :: MamdaniInferenceSystem where
  "thermostat_two_inputs =
     thermostat\<lparr>InputVariables := [(''Humidity'', humidity), (''Temperature'', temperature)]\<rparr>"

section \<open>Properties\<close>

subsection \<open>The operators\<close>

lemma clamp01_range: "0 \<le> clamp01 v \<and> clamp01 v \<le> 1"
  by (simp add: clamp01_def)

lemma MinOperator_loop_general:
  "MinOperator_loop rest mn err =
     (fold min (map clamp01 rest) mn,
      (case err of Some e \<Rightarrow> Some e
       | None \<Rightarrow> map_option InvalidMembershipError (List.find out_of_range rest)))"
  by (induction rest arbitrary: mn err)
     (auto simp: clamp01_def out_of_range_def min_def split: option.splits)

lemma MaxOperator_loop_general:
  "MaxOperator_loop rest mx err =
     (fold max (map clamp01 rest) mx,
      (case err of Some e \<Rightarrow> Some e
       | None \<Rightarrow> map_option InvalidMembershipError (List.find out_of_range rest)))"
  by (induction rest arbitrary: mx err)
     (auto simp: clamp01_def out_of_range_def max_def split: option.splits)

lemma fold_min_range: "0 \<le> m \<Longrightarrow> m \<le> 1 \<Longrightarrow> 0 \<le> fold min (map clamp01 rest) m \<and> fold min (map clamp01 rest) m \<le> 1"
  by (induction rest arbitrary: m) (auto simp: clamp01_def min_def)

lemma fold_max_range: "0 \<le> m \<Longrightarrow> m \<le> 1 \<Longrightarrow> 0 \<le> fold max (map clamp01 rest) m \<and> fold max (map clamp01 rest) m \<le> 1"
  by (induction rest arbitrary: m) (auto simp: clamp01_def max_def)

lemma MinOperator_Apply_general:
  "MinOperator_Apply (v0 # rest) =
     (Min (clamp01 ` set (v0 # rest)),
      map_option InvalidMembershipError (List.find out_of_range (v0 # rest)))"
proof -
  have m: "Min (clamp01 ` set (v0 # rest)) = fold min (map clamp01 rest) (clamp01 v0)"
    using Min.set_eq_fold [of "clamp01 v0" "map clamp01 rest"] by simp
  have r: "\<not> fold min (map clamp01 rest) (clamp01 v0) < 0"
          "\<not> fold min (map clamp01 rest) (clamp01 v0) > 1"
    using fold_min_range [of "clamp01 v0" rest] clamp01_range [of v0] by auto
  consider "v0 < 0" | "v0 > 1" | "\<not> v0 < 0" "\<not> v0 > 1" by blast
  then show ?thesis
  proof cases
    case 1
    then have c: "clamp01 v0 = 0" "out_of_range v0" by (simp_all add: clamp01_def out_of_range_def)
    show ?thesis using 1 r unfolding m c
      by (simp add: MinOperator_Apply_def MinOperator_loop_general c)
  next
    case 2
    then have c: "clamp01 v0 = 1" "out_of_range v0" by (simp_all add: clamp01_def out_of_range_def)
    show ?thesis using 2 r unfolding m c
      by (simp add: MinOperator_Apply_def MinOperator_loop_general c)
  next
    case 3
    then have c: "clamp01 v0 = v0" "\<not> out_of_range v0" by (simp_all add: clamp01_def out_of_range_def)
    show ?thesis using 3 r unfolding m c
      by (simp add: MinOperator_Apply_def MinOperator_loop_general c)
  qed
qed

lemma MaxOperator_Apply_general:
  "MaxOperator_Apply (v0 # rest) =
     (Max (clamp01 ` set (v0 # rest)),
      map_option InvalidMembershipError (List.find out_of_range (v0 # rest)))"
proof -
  have m: "Max (clamp01 ` set (v0 # rest)) = fold max (map clamp01 rest) (clamp01 v0)"
    using Max.set_eq_fold [of "clamp01 v0" "map clamp01 rest"] by simp
  have r: "\<not> fold max (map clamp01 rest) (clamp01 v0) < 0"
          "\<not> fold max (map clamp01 rest) (clamp01 v0) > 1"
    using fold_max_range [of "clamp01 v0" rest] clamp01_range [of v0] by auto
  consider "v0 < 0" | "v0 > 1" | "\<not> v0 < 0" "\<not> v0 > 1" by blast
  then show ?thesis
  proof cases
    case 1
    then have c: "clamp01 v0 = 0" "out_of_range v0" by (simp_all add: clamp01_def out_of_range_def)
    show ?thesis using 1 r unfolding m c
      by (simp add: MaxOperator_Apply_def MaxOperator_loop_general c)
  next
    case 2
    then have c: "clamp01 v0 = 1" "out_of_range v0" by (simp_all add: clamp01_def out_of_range_def)
    show ?thesis using 2 r unfolding m c
      by (simp add: MaxOperator_Apply_def MaxOperator_loop_general c)
  next
    case 3
    then have c: "clamp01 v0 = v0" "\<not> out_of_range v0" by (simp_all add: clamp01_def out_of_range_def)
    show ?thesis using 3 r unfolding m c
      by (simp add: MaxOperator_Apply_def MaxOperator_loop_general c)
  qed
qed

lemma NotOperator_Apply_general:
  "NotOperator_Apply (v # rest) =
     (1 - clamp01 v, if out_of_range v then Some (InvalidMembershipError v) else None)"
  by (simp add: NotOperator_Apply_def clamp01_def out_of_range_def)


text \<open>
  C6. On a sequence of degrees that all lie in \<open>[0,1]\<close>, \<^verbatim>\<open>AND.Apply\<close> returns the
  minimum, \<^verbatim>\<open>OR.Apply\<close> the maximum and \<^verbatim>\<open>NOT.Apply\<close> one minus its (first)
  value, all without an error; on the empty sequence \<^verbatim>\<open>AND\<close> and \<^verbatim>\<open>OR\<close>
  return \<open>0\<close> and \<^verbatim>\<open>NOT\<close> returns \<open>1\<close>.
\<close>

theorem Apply_valid_degrees:
  assumes "\<forall>v\<in>set values. 0 \<le> v \<and> v \<le> 1"
  shows "Apply AND values = (if values = [] then 0 else Min (set values), None)
       \<and> Apply OR values = (if values = [] then 0 else Max (set values), None)
       \<and> Apply NOT values = (case values of [] \<Rightarrow> 1 | v # rest \<Rightarrow> 1 - v, None)"
proof (cases "values")
  case Nil
  then show ?thesis
    by (simp add: MinOperator_Apply_def MaxOperator_Apply_def NotOperator_Apply_def)
next
  case (Cons v0 rest)
  have id: "clamp01 v = v" if "v \<in> set values" for v
    using assms that by (auto simp: clamp01_def)
  have ok: "\<not> out_of_range v" if "v \<in> set values" for v
    using assms that by (auto simp: out_of_range_def)
  have img: "clamp01 ` set values = set values"
    using id by force
  have none: "List.find out_of_range values = None"
    using ok by (simp add: find_None_iff)
  have "Apply AND values = (Min (set values), None)"
    using MinOperator_Apply_general [of v0 rest] img none Cons by simp
  moreover have "Apply OR values = (Max (set values), None)"
    using MaxOperator_Apply_general [of v0 rest] img none Cons by simp
  moreover have "Apply NOT values = (1 - v0, None)"
    using NotOperator_Apply_general [of v0 rest] id [of v0] ok [of v0] Cons by simp
  ultimately show ?thesis
    using Cons by simp
qed

theorem Apply_valid_degrees_witness:
  "Apply AND [1/2, 7/10, 3/10] = (3/10, None)
   \<and> Apply OR [1/2, 7/10, 3/10] = (7/10, None)
   \<and> Apply NOT [1/2, 7/10, 3/10] = (1/2, None)"
  using Apply_valid_degrees [of "[1/2, 7/10, 3/10]"] by simp

text \<open>
  C7, as the code has it. When a sequence holds a degree outside \<open>[0,1]\<close>,
  \<^verbatim>\<open>AND.Apply\<close> and \<^verbatim>\<open>OR.Apply\<close> return the minimum, respectively the maximum, of
  the values clamped to \<open>[0,1]\<close>, a result in \<open>[0,1]\<close>, together with an error that carries
  the first out-of-range value of the sequence as it was given. \<^verbatim>\<open>NOT.Apply\<close> reads only
  the first value of its sequence: it returns one minus that value clamped, and an error
  carrying that value exactly when that value is outside \<open>[0,1]\<close>.
\<close>

theorem Apply_invalid_degrees:
  assumes "\<exists>v\<in>set values. out_of_range v"
  shows "Apply AND values =
           (Min (clamp01 ` set values),
            Some (InvalidMembershipError (hd (filter out_of_range values))))
       \<and> Apply OR values =
           (Max (clamp01 ` set values),
            Some (InvalidMembershipError (hd (filter out_of_range values))))
       \<and> 0 \<le> fst (Apply AND values) \<and> fst (Apply AND values) \<le> 1
       \<and> 0 \<le> fst (Apply OR values) \<and> fst (Apply OR values) \<le> 1
       \<and> Apply NOT values =
           (1 - clamp01 (hd values),
            if out_of_range (hd values) then Some (InvalidMembershipError (hd values)) else None)"
proof -
  obtain v0 rest where Cons: "values = v0 # rest"
    using assms by (cases "values") auto
  have ne: "filter out_of_range values \<noteq> []"
    using assms by (simp add: filter_empty_conv)
  have first: "List.find out_of_range values = Some (hd (filter out_of_range values))"
    using ne by (induction "values") auto
  have fin: "finite (clamp01 ` set values)" "clamp01 ` set values \<noteq> {}"
    using Cons by simp_all
  have mem: "Min (clamp01 ` set values) \<in> clamp01 ` set values"
            "Max (clamp01 ` set values) \<in> clamp01 ` set values"
    using Min_in [OF fin] Max_in [OF fin] by blast+
  have lo: "0 \<le> Min (clamp01 ` set values)" "0 \<le> Max (clamp01 ` set values)"
    using mem clamp01_range by auto
  have hi: "Min (clamp01 ` set values) \<le> 1" "Max (clamp01 ` set values) \<le> 1"
    using mem clamp01_range by auto
  have a: "Apply AND values =
      (Min (clamp01 ` set values), Some (InvalidMembershipError (hd (filter out_of_range values))))"
    using MinOperator_Apply_general [of v0 rest] first Cons by simp
  have b: "Apply OR values =
      (Max (clamp01 ` set values), Some (InvalidMembershipError (hd (filter out_of_range values))))"
    using MaxOperator_Apply_general [of v0 rest] first Cons by simp
  have c: "Apply NOT values =
      (1 - clamp01 (hd values),
       if out_of_range (hd values) then Some (InvalidMembershipError (hd values)) else None)"
    using NotOperator_Apply_general [of v0 rest] Cons by simp
  show ?thesis
    unfolding a b c using lo hi by simp
qed

theorem Apply_invalid_degrees_witness:
  "(\<exists>v\<in>set [1/2, 3/2, -1 :: real]. out_of_range v)
   \<and> Apply AND [1/2, 3/2, -1] = (0, Some (InvalidMembershipError (3/2)))
   \<and> Apply OR [1/2, 3/2, -1] = (1, Some (InvalidMembershipError (3/2)))
   \<and> Apply NOT [1/2, 3/2, -1] = (1/2, None)"
  using Apply_invalid_degrees [of "[1/2, 3/2, -1]"]
  by (simp add: out_of_range_def clamp01_def)

text \<open>
  C7 as stated fails for \<^verbatim>\<open>NOT.Apply\<close>: a sequence whose second value is outside
  \<open>[0,1]\<close> gives no error.
\<close>

theorem Apply_NOT_ignores_later_values:
  "out_of_range (3/2) \<and> Apply NOT [1/2, 3/2] = (1/2, None)"
  by (simp add: out_of_range_def NotOperator_Apply_def)

subsection \<open>Rule evaluation\<close>

lemma Evaluate_loop_general:
  "Evaluate_loop membershipMap conds (length pre) (pre @ replicate (length conds) 0) =
     pre @ map (contributed_value membershipMap) conds"
proof (induction conds arbitrary: pre)
  case Nil
  then show ?case by simp
next
  case (Cons cond rest)
  have upd: "(pre @ 0 # replicate (length rest) 0)[length pre := d] =
      (pre @ [d]) @ replicate (length rest) 0" for d :: real
    by (simp add: list_update_append)
  have same: "pre @ 0 # replicate (length rest) (0::real) = (pre @ [0]) @ replicate (length rest) 0"
    by simp
  show ?case
    using Cons.IH [of "pre @ [contributed_value membershipMap cond]"]
    by (auto simp: contributed_value_def list_update_append split: option.splits)
qed

lemma Evaluate_loop_map:
  "Evaluate_loop membershipMap conds 0 (replicate (length conds) 0) =
     map (contributed_value membershipMap) conds"
  using Evaluate_loop_general [of membershipMap conds "[]"] by simp

lemma Apply_result_range: "vs \<noteq> [] \<Longrightarrow> 0 \<le> fst (Apply op vs) \<and> fst (Apply op vs) \<le> 1"
proof -
  assume "vs \<noteq> []"
  then obtain v0 rest where c: "vs = v0 # rest" by (cases vs) auto
  have fin: "finite (clamp01 ` set vs)" "clamp01 ` set vs \<noteq> {}" using c by simp_all
  have mem: "Min (clamp01 ` set vs) \<in> clamp01 ` set vs" "Max (clamp01 ` set vs) \<in> clamp01 ` set vs"
    using Min_in [OF fin] Max_in [OF fin] by blast+
  have r: "0 \<le> Min (clamp01 ` set vs) \<and> Min (clamp01 ` set vs) \<le> 1"
          "0 \<le> Max (clamp01 ` set vs) \<and> Max (clamp01 ` set vs) \<le> 1"
    using mem clamp01_range by auto
  show ?thesis
  proof (cases op)
    case MinOperator
    then show ?thesis using r MinOperator_Apply_general [of v0 rest] c by simp
  next
    case MaxOperator
    then show ?thesis using r MaxOperator_Apply_general [of v0 rest] c by simp
  next
    case NotOperator
    then show ?thesis using clamp01_range [of v0] NotOperator_Apply_general [of v0 rest] c by simp
  qed
qed

lemma Apply_reads:
  assumes "vs \<noteq> []"
  shows "Apply op vs =
          (if filter out_of_range (operator_reads op vs) = [] then (combine op vs, None)
           else (fst (Apply op vs),
                 Some (InvalidMembershipError (hd (filter out_of_range (operator_reads op vs))))))"
proof -
  obtain v0 rest where c: "vs = v0 # rest" using assms by (cases vs) auto
  have find_hd: "List.find P xs = (if filter P xs = [] then None else Some (hd (filter P xs)))"
    for P :: "real \<Rightarrow> bool" and xs
    by (induction xs) auto
  have img: "clamp01 ` set vs = set vs" if "filter out_of_range vs = []"
  proof -
    have "clamp01 v = v" if "v \<in> set vs" for v
      using \<open>filter out_of_range vs = []\<close> that
      by (auto simp: filter_empty_conv clamp01_def out_of_range_def)
    then show ?thesis by force
  qed
  show ?thesis
  proof (cases op)
    case MinOperator
    then show ?thesis
      using MinOperator_Apply_general [of v0 rest] c img find_hd [of out_of_range vs]
      by (auto simp: operator_reads_def combine_def)
  next
    case MaxOperator
    then show ?thesis
      using MaxOperator_Apply_general [of v0 rest] c img find_hd [of out_of_range vs]
      by (auto simp: operator_reads_def combine_def)
  next
    case NotOperator
    then show ?thesis
      using NotOperator_Apply_general [of v0 rest] c
      by (auto simp: operator_reads_def combine_def clamp01_def out_of_range_def)
  qed
qed

text \<open>
  C2, as the code has it. \<^verbatim>\<open>Rule.Evaluate\<close> fails exactly when the rule has no
  condition, or when a contributed value that the rule's operator reads (all of them for
  \<^verbatim>\<open>AND\<close> and \<^verbatim>\<open>OR\<close>, the first for \<^verbatim>\<open>NOT\<close>) lies outside \<open>[0,1]\<close>: the
  operator then reports that value and \<^verbatim>\<open>Evaluate\<close> returns the report as its error.
  Otherwise every condition contributes the degree looked up under its variable and set,
  complemented when the condition is negated, and \<open>0\<close> when a key is absent (negated or
  not); the operator combines the contributions, the rule's weight multiplies the
  combination, and for a weight in \<open>[0,1]\<close> the firing strength lies in \<open>[0,1]\<close>.
\<close>

theorem Evaluate_firing_strength:
  "Evaluate r membershipMap =
     (if Conditions r = [] then Inl NoConditions
      else if filter out_of_range
                (operator_reads (Operator r) (map (contributed_value membershipMap) (Conditions r)))
              \<noteq> []
      then Inl (OperatorFailed (Variable (Output r)) (Set (Output r))
             (InvalidMembershipError
               (hd (filter out_of_range
                 (operator_reads (Operator r)
                   (map (contributed_value membershipMap) (Conditions r)))))))
      else Inr (combine (Operator r) (map (contributed_value membershipMap) (Conditions r))
                  * Weight r))
   \<and> (0 \<le> Weight r \<and> Weight r \<le> 1 \<longrightarrow>
        (\<forall>s. Evaluate r membershipMap = Inr s \<longrightarrow> 0 \<le> s \<and> s \<le> 1))"
proof (cases "Conditions r = []")
  case True
  then show ?thesis by (simp add: Evaluate_def)
next
  case False
  let ?vs = "map (contributed_value membershipMap) (Conditions r)"
  have ne: "?vs \<noteq> []" using False by simp
  have ev: "Evaluate r membershipMap =
      (case snd (Apply (Operator r) ?vs) of
         Some e \<Rightarrow> Inl (OperatorFailed (Variable (Output r)) (Set (Output r)) e)
       | None \<Rightarrow> Inr (fst (Apply (Operator r) ?vs) * Weight r))"
    using False by (simp add: Evaluate_def Evaluate_loop_map case_prod_beta Let_def)
  have rng: "0 \<le> fst (Apply (Operator r) ?vs) \<and> fst (Apply (Operator r) ?vs) \<le> 1"
    using Apply_result_range [OF ne] .
  have first: ?thesis if "filter out_of_range (operator_reads (Operator r) ?vs) = []"
  proof -
    have a: "Apply (Operator r) ?vs = (combine (Operator r) ?vs, None)"
      using Apply_reads [OF ne, of "Operator r"] that by simp
    have "0 \<le> combine (Operator r) ?vs \<and> combine (Operator r) ?vs \<le> 1"
      using rng a by simp
    then have "0 \<le> combine (Operator r) ?vs * Weight r \<and> combine (Operator r) ?vs * Weight r \<le> 1"
      if "0 \<le> Weight r" "Weight r \<le> 1"
      using that by (simp add: mult_le_one)
    then show ?thesis using False that ev a by auto
  qed
  have second: ?thesis if "filter out_of_range (operator_reads (Operator r) ?vs) \<noteq> []"
  proof -
    have a: "snd (Apply (Operator r) ?vs) =
        Some (InvalidMembershipError (hd (filter out_of_range (operator_reads (Operator r) ?vs))))"
      using Apply_reads [OF ne, of "Operator r"] that by (metis snd_conv)
    show ?thesis using False that ev a by simp
  qed
  show ?thesis using first second by blast
qed


theorem Evaluate_firing_strength_witness:
  "0 \<le> Weight rule_hot_and_not_dry \<and> Weight rule_hot_and_not_dry \<le> 1
   \<and> Evaluate rule_hot_and_not_dry degrees_valid = Inr (7 / 20)
   \<and> contributed_value degrees_valid \<lparr>Variable = ''Pressure'', Set = ''Low'', Negated = True\<rparr> = 0"
  using Evaluate_firing_strength [of rule_hot_and_not_dry degrees_valid]
  by (simp add: rule_hot_and_not_dry_def degrees_valid_def contributed_value_def
        operator_reads_def combine_def out_of_range_def)

text \<open>
  C2 as stated fails: a rule with two conditions fails on a membership map that holds the
  degree \<open>3/2\<close>.
\<close>

theorem Evaluate_fails_with_conditions:
  "Conditions rule_hot_and_not_dry \<noteq> []
   \<and> Evaluate rule_hot_and_not_dry degrees_invalid =
       Inl (OperatorFailed ''FanSpeed'' ''High'' (InvalidMembershipError (3 / 2)))"
  by (simp add: rule_hot_and_not_dry_def degrees_invalid_def Evaluate_def
        MinOperator_Apply_def)

subsection \<open>Defuzzification: the membership functions and the inner loop\<close>

lemma Evaluate_mf_range: "0 \<le> Evaluate_mf mf x \<and> Evaluate_mf mf x \<le> 1"
proof (cases mf)
  case (Triangular A B C)
  then show ?thesis by (auto simp: field_simps)
next
  case (Trapezoidal A B C D)
  then show ?thesis by (auto simp: field_simps)
next
  case (Gaussian Center Width)
  have "0 \<le> (x - Center) * (x - Center) / (2 * Width * Width)"
    by (intro divide_nonneg_nonneg) (simp_all add: mult.assoc)
  then have "- ((x - Center) * (x - Center)) / (2 * Width * Width) \<le> 0"
    by simp
  then show ?thesis using Gaussian by simp
qed

lemma Evaluate_set_range: "0 \<le> Evaluate_set fs x \<and> Evaluate_set fs x \<le> 1"
  by (simp add: Evaluate_set_def Evaluate_mf_range)

lemma memberships_loop_ge: "acc \<le> memberships_loop ov ms x acc"
proof (induction ms arbitrary: acc)
  case Nil
  then show ?case by simp
next
  case (Cons e ms)
  obtain n s where e: "e = (n, s)" by (cases e)
  show ?case
    unfolding e
    by (cases "map_of (Sets ov) n")
       (auto simp: Let_def intro: order_trans [OF _ Cons.IH])
qed

lemma memberships_loop_nonneg: "0 \<le> memberships_loop ov ms x 0"
  by (rule memberships_loop_ge)

lemma memberships_loop_fold:
  "aggregation_for ov ms \<Longrightarrow>
   memberships_loop ov ms x acc =
     fold max (map (\<lambda>(setName, strength).
        Evaluate_set (the (map_of (Sets ov) setName)) x * strength) ms) acc"
proof (induction ms arbitrary: acc)
  case Nil
  then show ?case by simp
next
  case (Cons e ms)
  obtain n s where e: "e = (n, s)" by (cases e)
  from Cons.prems obtain fs where fs: "map_of (Sets ov) n = Some fs" and rest: "aggregation_for ov ms"
    by (auto simp: aggregation_for_def e)
  show ?case
    using Cons.IH [OF rest] fs by (simp add: e Let_def max_def)
qed

lemma memberships_loop_clip_max:
  assumes "aggregation_for ov ms" "ms \<noteq> []"
  shows "memberships_loop ov ms x 0 = clip_max ov ms x"
proof -
  let ?f = "\<lambda>(setName, strength). Evaluate_set (the (map_of (Sets ov) setName)) x * strength"
  have nonneg: "0 \<le> ?f e" if "e \<in> set ms" for e
  proof -
    obtain n s where e: "e = (n, s)" by (cases e)
    have "0 \<le> s" using assms(1) that by (auto simp: aggregation_for_def list_all_iff e)
    then show ?thesis using Evaluate_set_range by (simp add: e)
  qed
  have fin: "finite (?f ` set ms)" "?f ` set ms \<noteq> {}" using assms(2) by simp_all
  have "memberships_loop ov ms x 0 = fold max (map ?f ms) 0"
    using memberships_loop_fold [OF assms(1)] by simp
  also have "\<dots> = Max (set (0 # map ?f ms))"
    using Max.set_eq_fold [of 0 "map ?f ms"] by simp
  also have "\<dots> = max 0 (Max (?f ` set ms))"
    using fin by simp
  also have "\<dots> = Max (?f ` set ms)"
  proof -
    have "Max (?f ` set ms) \<in> ?f ` set ms" using Max_in [OF fin] .
    then have "0 \<le> Max (?f ` set ms)" using nonneg by auto
    then show ?thesis by simp
  qed
  finally show ?thesis by (simp add: clip_max_def)
qed

lemma loop_point: "MinValue ov + of_int i * ((MaxValue ov - MinValue ov) / of_int R) = sample_point ov R i"
  by (simp add: sample_point_def)

lemma cog_loop_sums:
  "cog_loop ov ms R step i n d =
     (n + (\<Sum>k\<leftarrow>[i..R]. (MinValue ov + of_int k * step)
              * memberships_loop ov ms (MinValue ov + of_int k * step) 0),
      d + (\<Sum>k\<leftarrow>[i..R]. memberships_loop ov ms (MinValue ov + of_int k * step) 0))"
proof (induction ov ms R step i n d rule: cog_loop.induct)
  case (1 ov ms R step i n d)
  show ?case
  proof (cases "i \<le> R")
    case True
    then show ?thesis
      using "1.IH" [OF True]
      by (subst cog_loop.simps) (simp add: upto_rec1 [of i R] add.assoc)
  next
    case False
    then show ?thesis by (subst cog_loop.simps) simp
  qed
qed

subsection \<open>Defuzzification: the scans of mean and first of maximum\<close>

lemma epsilon_pos: "0 < epsilon"
  by (simp add: epsilon_def)

lemma abs_diff_le: "a \<le> b \<Longrightarrow> \<bar>a - b\<bar> = b - a"
  for a b :: real
  by simp

lemma Max_image_snoc:
  "ys \<noteq> [] \<Longrightarrow> Max (m ` set (ys @ [x])) = max (m x) (Max (m ` set ys))"
  for m :: "real \<Rightarrow> real"
  by simp

lemma Max_image_attained:
  "ys \<noteq> [] \<Longrightarrow> \<exists>y\<in>set ys. m y = Max (m ` set ys)"
  for m :: "real \<Rightarrow> real"
proof -
  assume "ys \<noteq> []"
  then have "Max (m ` set ys) \<in> m ` set ys"
    by (intro Max_in) simp_all
  then show ?thesis
    by (metis imageE)
qed

lemma Max_image_upper:
  "y \<in> set ys \<Longrightarrow> m y \<le> Max (m ` set ys)"
  for m :: "real \<Rightarrow> real"
  by simp

lemma mom_step_reset:
  fixes m :: "real \<Rightarrow> real"
  assumes "ys \<noteq> []" "Max (m ` set ys) < m x"
  shows "Max (m ` set (ys @ [x])) = m x"
    and "filter (\<lambda>y. m x - m y < epsilon) (dropWhile (\<lambda>y. m y < m x) (ys @ [x])) = [x]"
proof -
  show "Max (m ` set (ys @ [x])) = m x"
    using assms by (simp add: Max_image_snoc)
  have "m y < m x" if "y \<in> set ys" for y
    using Max_image_upper [OF that, of m] assms(2) by simp
  then have "dropWhile (\<lambda>y. m y < m x) (ys @ [x]) = [x]"
    by simp
  then show "filter (\<lambda>y. m x - m y < epsilon) (dropWhile (\<lambda>y. m y < m x) (ys @ [x])) = [x]"
    using epsilon_pos by simp
qed

lemma mom_step_keep:
  fixes m :: "real \<Rightarrow> real"
  assumes "ys \<noteq> []" "\<not> Max (m ` set ys) < m x"
  shows "Max (m ` set (ys @ [x])) = Max (m ` set ys)"
    and "filter (\<lambda>y. Max (m ` set ys) - m y < epsilon)
           (dropWhile (\<lambda>y. m y < Max (m ` set ys)) (ys @ [x])) =
         filter (\<lambda>y. Max (m ` set ys) - m y < epsilon)
           (dropWhile (\<lambda>y. m y < Max (m ` set ys)) ys)
         @ (if \<bar>m x - Max (m ` set ys)\<bar> < epsilon then [x] else [])"
proof -
  have le: "m x \<le> Max (m ` set ys)"
    using assms(2) by (simp only: not_less)
  show "Max (m ` set (ys @ [x])) = Max (m ` set ys)"
    unfolding Max_image_snoc [OF assms(1)] using le by (rule max_absorb2)
  obtain y where "y \<in> set ys" "m y = Max (m ` set ys)"
    using Max_image_attained [OF assms(1), of m] by blast
  then have "dropWhile (\<lambda>y. m y < Max (m ` set ys)) (ys @ [x]) =
      dropWhile (\<lambda>y. m y < Max (m ` set ys)) ys @ [x]"
    by (intro dropWhile_append1 [of y]) simp_all
  moreover have "\<bar>m x - Max (m ` set ys)\<bar> = Max (m ` set ys) - m x"
    using le by (rule abs_diff_le)
  ultimately show "filter (\<lambda>y. Max (m ` set ys) - m y < epsilon)
           (dropWhile (\<lambda>y. m y < Max (m ` set ys)) (ys @ [x])) =
         filter (\<lambda>y. Max (m ` set ys) - m y < epsilon)
           (dropWhile (\<lambda>y. m y < Max (m ` set ys)) ys)
         @ (if \<bar>m x - Max (m ` set ys)\<bar> < epsilon then [x] else [])"
    by simp
qed

lemma mom_loop_scan:
  assumes "1 \<le> i" "i \<le> R + 1"
    and "mx = Max ((\<lambda>y. memberships_loop ov ms y 0) ` set (map (\<lambda>k. MinValue ov + of_int k * step) [0..i - 1]))"
    and "pts = filter (\<lambda>y. mx - memberships_loop ov ms y 0 < epsilon)
                 (dropWhile (\<lambda>y. memberships_loop ov ms y 0 < mx)
                    (map (\<lambda>k. MinValue ov + of_int k * step) [0..i - 1]))"
  shows "mom_loop ov ms R step i mx pts =
     (Max ((\<lambda>y. memberships_loop ov ms y 0) ` set (map (\<lambda>k. MinValue ov + of_int k * step) [0..R])),
      filter (\<lambda>y. Max ((\<lambda>y. memberships_loop ov ms y 0)
                         ` set (map (\<lambda>k. MinValue ov + of_int k * step) [0..R]))
                   - memberships_loop ov ms y 0 < epsilon)
        (dropWhile (\<lambda>y. memberships_loop ov ms y 0
                       < Max ((\<lambda>y. memberships_loop ov ms y 0)
                              ` set (map (\<lambda>k. MinValue ov + of_int k * step) [0..R])))
           (map (\<lambda>k. MinValue ov + of_int k * step) [0..R])))"
  using assms
proof (induction "nat (R + 1 - i)" arbitrary: i mx pts)
  case 0
  then have "i = R + 1" by simp
  then show ?case
    using "0.prems" by (subst mom_loop.simps) simp
next
  case (Suc n)
  let ?x = "\<lambda>k. MinValue ov + of_int k * step"
  let ?m = "\<lambda>y. memberships_loop ov ms y 0"
  let ?ys = "map ?x [0..i - 1]"
  from Suc.hyps(2) have le: "i \<le> R" by simp
  have n: "n = nat (R + 1 - (i + 1))" using Suc.hyps(2) by simp
  have ne: "?ys \<noteq> []" using Suc.prems(1) by simp
  have snoc: "map ?x [0..i + 1 - 1] = ?ys @ [?x i]"
    using Suc.prems(1) upto_rec2 [of 0 i] by simp
  have i0: "i \<noteq> 0" using Suc.prems(1) by simp
  have mx: "mx = Max (?m ` set ?ys)" using Suc.prems(3) .
  show ?case
  proof (cases "?m (?x i) > mx")
    case True
    have step: "mom_loop ov ms R step i mx pts = mom_loop ov ms R step (i + 1) (?m (?x i)) [?x i]"
      using le True by (subst mom_loop.simps) simp
    have a: "?m (?x i) = Max (?m ` set (map ?x [0..i + 1 - 1]))"
      unfolding snoc using mom_step_reset(1) [OF ne, of ?m "?x i"] True mx by simp
    have b: "[?x i] = filter (\<lambda>y. ?m (?x i) - ?m y < epsilon)
               (dropWhile (\<lambda>y. ?m y < ?m (?x i)) (map ?x [0..i + 1 - 1]))"
      unfolding snoc using mom_step_reset(2) [OF ne, of ?m "?x i"] True mx by simp
    show ?thesis
      unfolding step
      by (rule Suc.hyps(1) [OF n _ _ a b]) (use Suc.prems le in simp_all)
  next
    case False
    let ?pts' = "if \<bar>?m (?x i) - mx\<bar> < epsilon then pts @ [?x i] else pts"
    have step: "mom_loop ov ms R step i mx pts = mom_loop ov ms R step (i + 1) mx ?pts'"
      using le False i0 by (subst mom_loop.simps) simp
    have nlt: "\<not> Max (?m ` set ?ys) < ?m (?x i)" using False mx by simp
    have a: "mx = Max (?m ` set (map ?x [0..i + 1 - 1]))"
      unfolding snoc using mom_step_keep(1) [OF ne nlt] mx by simp
    have b: "?pts' = filter (\<lambda>y. mx - ?m y < epsilon)
               (dropWhile (\<lambda>y. ?m y < mx) (map ?x [0..i + 1 - 1]))"
      unfolding snoc using mom_step_keep(2) [OF ne nlt] mx Suc.prems(4) by simp
    show ?thesis
      unfolding step
      by (rule Suc.hyps(1) [OF n _ _ a b]) (use Suc.prems le in simp_all)
  qed
qed

lemma dropWhile_all_but_last:
  "(\<And>y. y \<in> set ys \<Longrightarrow> P y) \<Longrightarrow> \<not> P x \<Longrightarrow> dropWhile P (ys @ [x]) = [x]"
  by simp

lemma fom_loop_scan:
  assumes "0 \<le> i" "i \<le> R + 1"
    and "mx = Max (insert 0 ((\<lambda>y. memberships_loop ov ms y 0)
                     ` set (map (\<lambda>k. MinValue ov + of_int k * step) [0..i - 1])))"
    and "res = (if mx = 0 then r0
                else hd (dropWhile (\<lambda>y. memberships_loop ov ms y 0 < mx)
                           (map (\<lambda>k. MinValue ov + of_int k * step) [0..i - 1])))"
  shows "fom_loop ov ms R step i mx res =
     (Max (insert 0 ((\<lambda>y. memberships_loop ov ms y 0)
                     ` set (map (\<lambda>k. MinValue ov + of_int k * step) [0..R]))),
      if Max (insert 0 ((\<lambda>y. memberships_loop ov ms y 0)
                     ` set (map (\<lambda>k. MinValue ov + of_int k * step) [0..R]))) = 0 then r0
      else hd (dropWhile (\<lambda>y. memberships_loop ov ms y 0
                       < Max (insert 0 ((\<lambda>y. memberships_loop ov ms y 0)
                              ` set (map (\<lambda>k. MinValue ov + of_int k * step) [0..R]))))
           (map (\<lambda>k. MinValue ov + of_int k * step) [0..R])))"
  using assms
proof (induction "nat (R + 1 - i)" arbitrary: i mx res)
  case 0
  then have "i = R + 1" by simp
  then show ?case
    using "0.prems" by (subst fom_loop.simps) simp
next
  case (Suc n)
  let ?x = "\<lambda>k. MinValue ov + of_int k * step"
  let ?m = "\<lambda>y. memberships_loop ov ms y 0"
  let ?ys = "map ?x [0..i - 1]"
  from Suc.hyps(2) have le: "i \<le> R" by simp
  have n: "n = nat (R + 1 - (i + 1))" using Suc.hyps(2) by simp
  have snoc: "map ?x [0..i + 1 - 1] = ?ys @ [?x i]"
    using Suc.prems(1) upto_rec2 [of 0 i] by simp
  have mx: "mx = Max (insert 0 (?m ` set ?ys))" using Suc.prems(3) .
  have fin: "finite (insert 0 (?m ` set ?ys))" by simp
  have upper: "?m y \<le> mx" if "y \<in> set ?ys" for y
    unfolding mx using that by (intro Max_ge) simp_all
  have mx0: "0 \<le> mx" unfolding mx by (intro Max_ge) simp_all
  have new: "Max (insert 0 (?m ` set (?ys @ [?x i]))) = max (?m (?x i)) mx"
  proof -
    have "insert 0 (?m ` set (?ys @ [?x i])) = insert (?m (?x i)) (insert 0 (?m ` set ?ys))"
      by auto
    then show ?thesis
      unfolding mx by (simp only: Max_insert [OF fin insert_not_empty])
  qed
  show ?case
  proof (cases "?m (?x i) > mx")
    case True
    have step: "fom_loop ov ms R step i mx res = fom_loop ov ms R step (i + 1) (?m (?x i)) (?x i)"
      using le True by (subst fom_loop.simps) simp
    have a: "?m (?x i) = Max (insert 0 (?m ` set (map ?x [0..i + 1 - 1])))"
      unfolding snoc new using True by simp
    have "?m y < ?m (?x i)" if "y \<in> set ?ys" for y
      using upper [OF that] True by simp
    then have "dropWhile (\<lambda>y. ?m y < ?m (?x i)) (?ys @ [?x i]) = [?x i]"
      by (intro dropWhile_all_but_last) simp_all
    moreover have "?m (?x i) \<noteq> 0" using True mx0 by simp
    ultimately have b: "?x i = (if ?m (?x i) = 0 then r0
        else hd (dropWhile (\<lambda>y. ?m y < ?m (?x i)) (map ?x [0..i + 1 - 1])))"
      unfolding snoc by simp
    show ?thesis
      unfolding step
      by (rule Suc.hyps(1) [OF n _ _ a b]) (use Suc.prems le in simp_all)
  next
    case False
    have step: "fom_loop ov ms R step i mx res = fom_loop ov ms R step (i + 1) mx res"
      using le False by (subst fom_loop.simps) simp
    have a: "mx = Max (insert 0 (?m ` set (map ?x [0..i + 1 - 1])))"
      unfolding snoc new using False by simp
    have b: "res = (if mx = 0 then r0
        else hd (dropWhile (\<lambda>y. ?m y < mx) (map ?x [0..i + 1 - 1])))"
    proof (cases "mx = 0")
      case True
      then show ?thesis using Suc.prems(4) by simp
    next
      case nz: False
      have "mx \<in> insert 0 (?m ` set ?ys)"
        unfolding mx by (intro Max_in) simp_all
      then obtain y where y: "y \<in> set ?ys" "?m y = mx"
        using nz by auto
      then have d: "dropWhile (\<lambda>y. ?m y < mx) (?ys @ [?x i]) = dropWhile (\<lambda>y. ?m y < mx) ?ys @ [?x i]"
        by (intro dropWhile_append1 [of y]) simp_all
      have "dropWhile (\<lambda>y. ?m y < mx) ?ys \<noteq> []"
        using y by auto
      then show ?thesis
        unfolding snoc d using nz Suc.prems(4) by simp
    qed
    show ?thesis
      unfolding step
      by (rule Suc.hyps(1) [OF n _ _ a b]) (use Suc.prems le in simp_all)
  qed
qed

lemma fold_add_sum_list: "fold (\<lambda>p sum. sum + p) points a = a + sum_list points"
  for a :: real
  by (induction points arbitrary: a) simp_all

lemma hd_dropWhile_filter:
  "\<exists>y\<in>set ys. Q y \<Longrightarrow> hd (dropWhile (\<lambda>y. \<not> Q y) ys) = hd (filter Q ys)"
  by (induction ys) auto

lemma scan_points:
  "map (\<lambda>k. MinValue ov + of_int k * ((MaxValue ov - MinValue ov) / of_int R)) [0..R] =
     sample_points ov R"
  by (simp add: sample_points_def sample_point_def)

lemma sample_points_length: "0 \<le> R \<Longrightarrow> length (sample_points ov R) = nat R + 1"
  by (simp add: sample_points_def)

lemma sample_points_nonempty: "0 \<le> R \<Longrightarrow> sample_points ov R \<noteq> []"
  using sample_points_length [of R ov] by auto

lemma scan_membership:
  assumes "aggregation_for ov ms" "ms \<noteq> []"
  shows "(\<lambda>y. memberships_loop ov ms y 0) = clip_max ov ms"
  using memberships_loop_clip_max [OF assms] by auto

lemma clip_max_nonneg:
  assumes "aggregation_for ov ms" "ms \<noteq> []"
  shows "0 \<le> clip_max ov ms x"
  using memberships_loop_nonneg [of ov ms x] memberships_loop_clip_max [OF assms, of x] by simp

lemma peak_attained:
  assumes "0 \<le> R"
  shows "\<exists>x\<in>set (sample_points ov R). clip_max ov ms x = peak ov ms R"
  unfolding peak_def
  using Max_image_attained [OF sample_points_nonempty [OF assms], where m = "clip_max ov ms"] .

lemma peak_upper: "x \<in> set (sample_points ov R) \<Longrightarrow> clip_max ov ms x \<le> peak ov ms R"
  unfolding peak_def by (rule Max_image_upper)

lemma peak_nonneg:
  assumes "aggregation_for ov ms" "ms \<noteq> []" "0 \<le> R"
  shows "0 \<le> peak ov ms R"
  using peak_attained [OF assms(3), of ov ms] clip_max_nonneg [OF assms(1,2)] by metis

lemma peak_zero_iff:
  assumes "aggregation_for ov ms" "ms \<noteq> []" "0 \<le> R"
  shows "peak ov ms R = 0 \<longleftrightarrow> list_all (\<lambda>x. clip_max ov ms x = 0) (sample_points ov R)"
proof
  assume z: "peak ov ms R = 0"
  have "clip_max ov ms x = 0" if "x \<in> set (sample_points ov R)" for x
    using peak_upper [OF that, of ms] clip_max_nonneg [OF assms(1,2), of x] z by simp
  then show "list_all (\<lambda>x. clip_max ov ms x = 0) (sample_points ov R)"
    by (simp add: list_all_iff)
next
  assume "list_all (\<lambda>x. clip_max ov ms x = 0) (sample_points ov R)"
  then show "peak ov ms R = 0"
    using peak_attained [OF assms(3), of ov ms] by (auto simp: list_all_iff)
qed

lemma mom_points_nonempty:
  assumes "0 \<le> R"
  shows "filter (\<lambda>x. peak ov ms R - clip_max ov ms x < epsilon)
           (dropWhile (\<lambda>x. clip_max ov ms x < peak ov ms R) (sample_points ov R)) \<noteq> []"
proof -
  let ?P = "\<lambda>x. clip_max ov ms x < peak ov ms R"
  let ?d = "dropWhile ?P (sample_points ov R)"
  obtain y where y: "y \<in> set (sample_points ov R)" "clip_max ov ms y = peak ov ms R"
    using peak_attained [OF assms] by blast
  then have "\<not> (\<forall>x\<in>set (sample_points ov R). ?P x)"
    by force
  then have ne: "?d \<noteq> []"
    by (simp only: dropWhile_eq_Nil_conv not_False_eq_True)
  then have h: "\<not> ?P (hd ?d)" by (rule hd_dropWhile)
  have "hd ?d \<in> set ?d" using ne by simp
  then have "hd ?d \<in> set (sample_points ov R)" by (rule set_dropWhileD)
  then have "clip_max ov ms (hd ?d) = peak ov ms R"
    using peak_upper [of "hd ?d" ov R ms] h by simp
  then have "peak ov ms R - clip_max ov ms (hd ?d) < epsilon"
    using epsilon_pos by simp
  then show ?thesis
    using \<open>hd ?d \<in> set ?d\<close> by (auto simp: filter_empty_conv)
qed

subsection \<open>Defuzzification: two output variables evaluated\<close>

lemma fan_points: "sample_points fan_speed 4 = [0, 25, 50, 75, 100]"
  by (simp add: sample_points_def sample_point_def fan_speed_def upto.simps)

lemma fan_clip:
  "clip_max fan_speed low_half_high_full 0 = 0"
  "clip_max fan_speed low_half_high_full 25 = 1 / 4"
  "clip_max fan_speed low_half_high_full 50 = 0"
  "clip_max fan_speed low_half_high_full 75 = 1 / 2"
  "clip_max fan_speed low_half_high_full 100 = 0"
  by (simp_all add: clip_max_def fan_speed_def low_half_high_full_def Evaluate_set_def)

lemma fan_ne: "low_half_high_full \<noteq> []"
  by (simp add: low_half_high_full_def)

lemma valve_ne: "nearly_tied \<noteq> []"
  by (simp add: nearly_tied_def)

lemma fan_agg: "aggregation_for fan_speed low_half_high_full"
  by (simp add: aggregation_for_def fan_speed_def low_half_high_full_def)

lemma fan_peak: "peak fan_speed low_half_high_full 4 = 1 / 2"
  by (simp add: peak_def fan_points fan_clip)

lemma valve_points: "sample_points valve 2 = [0, 1, 2]"
  by (simp add: sample_points_def sample_point_def valve_def upto.simps)

lemma valve_clip:
  "clip_max valve nearly_tied 0 = 1 / 2"
  "clip_max valve nearly_tied 1 = 1 / 2 + 1 / 10000000000"
  "clip_max valve nearly_tied 2 = 1 / 2 + 1 / 10000000000"
  by (simp_all add: clip_max_def valve_def nearly_tied_def Evaluate_set_def)

lemma valve_agg: "aggregation_for valve nearly_tied"
  by (simp add: aggregation_for_def valve_def nearly_tied_def)

lemma valve_peak: "peak valve nearly_tied 2 = 1 / 2 + 1 / 10000000000"
  by (simp add: peak_def valve_points valve_clip)

lemma fan_loop:
  "memberships_loop fan_speed low_half_high_full x 0 = clip_max fan_speed low_half_high_full x"
  using memberships_loop_clip_max [OF fan_agg fan_ne] .

lemma valve_loop:
  "memberships_loop valve nearly_tied x 0 = clip_max valve nearly_tied x"
  using memberships_loop_clip_max [OF valve_agg valve_ne] .

lemma valve_mirrored_ne: "nearly_tied_mirrored \<noteq> []"
  by (simp add: nearly_tied_mirrored_def)

lemma valve_mirrored_clip:
  "clip_max valve nearly_tied_mirrored 0 = 1 / 2 + 1 / 10000000000"
  "clip_max valve nearly_tied_mirrored 1 = 1 / 2"
  "clip_max valve nearly_tied_mirrored 2 = 1 / 2"
  by (simp_all add: clip_max_def valve_def nearly_tied_mirrored_def Evaluate_set_def)

lemma valve_mirrored_agg: "aggregation_for valve nearly_tied_mirrored"
  by (simp add: aggregation_for_def valve_def nearly_tied_mirrored_def)

lemma valve_mirrored_peak: "peak valve nearly_tied_mirrored 2 = 1 / 2 + 1 / 10000000000"
  by (simp add: peak_def valve_points valve_mirrored_clip)

lemma valve_mirrored_loop:
  "memberships_loop valve nearly_tied_mirrored x 0 = clip_max valve nearly_tied_mirrored x"
  using memberships_loop_clip_max [OF valve_mirrored_agg valve_mirrored_ne] .

lemma fan_domain: "MinValue fan_speed = 0" "MaxValue fan_speed = 100"
  by (simp_all add: fan_speed_def)

lemma valve_domain: "MinValue valve = 0" "MaxValue valve = 2"
  by (simp_all add: valve_def)

subsection \<open>Defuzzification: the three methods\<close>

text \<open>
  C1. For a resolution \<open>R > 0\<close> and an aggregation map of the output variable, centroid
  defuzzification samples the \<open>R + 1\<close> points \<open>x\<^sub>i = min + i * (max - min) / R\<close>, takes
  \<open>m(x\<^sub>i)\<close> to be the maximum over the entries of the map of the set's membership at
  \<open>x\<^sub>i\<close> times the strength, and returns the sum of the \<open>x\<^sub>i * m(x\<^sub>i)\<close> divided by the sum
  of the \<open>m(x\<^sub>i)\<close>; it fails exactly when the map is empty or that denominator is \<open>0\<close>.
\<close>

theorem defuzzifyCOG_centroid:
  assumes "0 < R" and "aggregation_for outputVar memberships"
  shows "length (sample_points outputVar R) = nat R + 1
       \<and> defuzzifyCOGWithResolution outputVar memberships R =
           (if memberships = []
               \<or> (\<Sum>x\<leftarrow>sample_points outputVar R. clip_max outputVar memberships x) = 0
            then Inl NoRulesFired
            else Inr ((\<Sum>x\<leftarrow>sample_points outputVar R. x * clip_max outputVar memberships x)
                      / (\<Sum>x\<leftarrow>sample_points outputVar R. clip_max outputVar memberships x)))"
proof (cases "memberships = []")
  case True
  then show ?thesis
    using assms(1) by (simp add: defuzzifyCOGWithResolution_def sample_points_length)
next
  case False
  let ?x = "\<lambda>k. MinValue outputVar + of_int k * ((MaxValue outputVar - MinValue outputVar) / of_int R)"
  have m: "(\<lambda>y. memberships_loop outputVar memberships y 0) = clip_max outputVar memberships"
    using scan_membership [OF assms(2) False] .
  have m': "memberships_loop outputVar memberships y 0 = clip_max outputVar memberships y" for y
    using m by metis
  have num: "(\<Sum>k\<leftarrow>[0..R]. ?x k * clip_max outputVar memberships (?x k)) =
      (\<Sum>x\<leftarrow>sample_points outputVar R. x * clip_max outputVar memberships x)"
    unfolding scan_points [symmetric] by (simp add: comp_def)
  have den: "(\<Sum>k\<leftarrow>[0..R]. clip_max outputVar memberships (?x k)) =
      (\<Sum>x\<leftarrow>sample_points outputVar R. clip_max outputVar memberships x)"
    unfolding scan_points [symmetric] by (simp add: comp_def)
  have "cog_loop outputVar memberships R ((MaxValue outputVar - MinValue outputVar) / of_int R) 0 0 0 =
      ((\<Sum>x\<leftarrow>sample_points outputVar R. x * clip_max outputVar memberships x),
       (\<Sum>x\<leftarrow>sample_points outputVar R. clip_max outputVar memberships x))"
    unfolding cog_loop_sums m' num den by simp
  then show ?thesis
    using assms(1) False by (simp add: defuzzifyCOGWithResolution_def sample_points_length)
qed

theorem defuzzifyCOG_centroid_witness:
  "defuzzifyCOGWithResolution fan_speed low_half_high_full 4 = Inr (175 / 3)"
  using defuzzifyCOG_centroid [of 4 fan_speed low_half_high_full]
  by (simp add: fan_agg fan_ne fan_points fan_clip)

text \<open>
  What the scan of \<^verbatim>\<open>defuzzifyMOMWithResolution\<close> computes: the mean of the sample
  points that lie at or after the first point where \<open>m\<close> attains its maximum over the scan
  and whose \<open>m\<close> is less than \<open>epsilon\<close> below that maximum.
\<close>

lemma defuzzifyMOM_scan:
  assumes "0 < R" and "aggregation_for outputVar memberships"
  shows "defuzzifyMOMWithResolution outputVar memberships R =
           (if memberships = [] \<or> \<not> 0 < peak outputVar memberships R then Inl NoRulesFired
            else Inr (mean (filter
                   (\<lambda>x. peak outputVar memberships R - clip_max outputVar memberships x < epsilon)
                   (dropWhile (\<lambda>x. clip_max outputVar memberships x < peak outputVar memberships R)
                      (sample_points outputVar R)))))"
proof (cases "memberships = []")
  case True
  then show ?thesis by (simp add: defuzzifyMOMWithResolution_def)
next
  case False
  let ?step = "(MaxValue outputVar - MinValue outputVar) / of_int R"
  let ?x = "\<lambda>k. MinValue outputVar + of_int k * ?step"
  let ?m = "\<lambda>y. memberships_loop outputVar memberships y 0"
  have m: "memberships_loop outputVar memberships y 0 = clip_max outputVar memberships y" for y
    using memberships_loop_clip_max [OF assms(2) False] .
  have R0: "0 \<le> R" using assms(1) by simp
  have first: "mom_loop outputVar memberships R ?step 0 0 [] =
      mom_loop outputVar memberships R ?step 1 (?m (?x 0)) [?x 0]"
    using R0 by (subst mom_loop.simps) simp
  have a: "?m (?x 0) = Max (?m ` set (map ?x [0..1 - 1]))"
    by simp
  have b: "[?x 0] = filter (\<lambda>y. ?m (?x 0) - ?m y < epsilon)
      (dropWhile (\<lambda>y. ?m y < ?m (?x 0)) (map ?x [0..1 - 1]))"
    using epsilon_pos by simp
  have scan: "mom_loop outputVar memberships R ?step 0 0 [] =
      (peak outputVar memberships R,
       filter (\<lambda>x. peak outputVar memberships R - clip_max outputVar memberships x < epsilon)
         (dropWhile (\<lambda>x. clip_max outputVar memberships x < peak outputVar memberships R)
            (sample_points outputVar R)))"
    unfolding first
    using mom_loop_scan [OF _ _ a b, of R] assms(1)
    unfolding scan_points m peak_def by simp
  have ne: "filter (\<lambda>x. peak outputVar memberships R - clip_max outputVar memberships x < epsilon)
         (dropWhile (\<lambda>x. clip_max outputVar memberships x < peak outputVar memberships R)
            (sample_points outputVar R)) \<noteq> []"
    using mom_points_nonempty [OF R0] .
  have pos: "peak outputVar memberships R = 0 \<longleftrightarrow> \<not> 0 < peak outputVar memberships R"
    using peak_nonneg [OF assms(2) False R0] by auto
  show ?thesis
    using assms(1) False ne pos
    by (simp add: defuzzifyMOMWithResolution_def scan fold_add_sum_list mean_def)
qed

text \<open>
  C3. Mean of maximum is to return the mean of all the sample points whose aggregated
  membership lies within \<open>epsilon\<close> of the maximum over the scan. The code does not: the
  branch that appends a point compares with the tolerance \<open>epsilon\<close>, the branch that
  starts the list afresh compares with a bare \<^verbatim>\<open>currentMax > maxMembership\<close>, so a point
  that is higher by less than \<open>epsilon\<close> evicts the ties collected before it. With the
  memberships \<open>1/2, 1/2 + 1/10000000000, 1/2 + 1/10000000000\<close> at the sample points
  \<open>0, 1, 2\<close> the code returns \<open>3/2\<close>, where the mean of the three points is \<open>1\<close>; with the
  same memberships in the opposite order, \<open>1/2 + 1/10000000000, 1/2, 1/2\<close>, it returns
  \<open>1\<close>.
\<close>

theorem defuzzifyMOM_drops_earlier_points:
  "sample_points valve 2 = [0, 1, 2]
   \<and> map (\<lambda>x. memberships_loop valve nearly_tied x 0) [0, 1, 2] =
        [1 / 2, 1 / 2 + 1 / 10000000000, 1 / 2 + 1 / 10000000000]
   \<and> defuzzifyMOMWithResolution valve nearly_tied 2 = Inr (3 / 2)
   \<and> mom_spec valve nearly_tied 2 = Inr 1
   \<and> map (\<lambda>x. memberships_loop valve nearly_tied_mirrored x 0) [0, 1, 2] =
        [1 / 2 + 1 / 10000000000, 1 / 2, 1 / 2]
   \<and> defuzzifyMOMWithResolution valve nearly_tied_mirrored 2 = Inr 1
   \<and> mom_spec valve nearly_tied_mirrored 2 = Inr 1"
proof -
  have a: "map (\<lambda>x. memberships_loop valve nearly_tied x 0) [0, 1, 2] =
        [1 / 2, 1 / 2 + 1 / 10000000000, 1 / 2 + 1 / 10000000000]"
    by (simp add: valve_loop valve_clip)
  have "mom_loop valve nearly_tied 2 1 0 0 [] = (1 / 2 + 1 / 10000000000, [1, 2])"
    by (simp add: mom_loop.simps valve_loop valve_domain valve_clip epsilon_def)
  then have b: "defuzzifyMOMWithResolution valve nearly_tied 2 = Inr (3 / 2)"
    by (simp add: defuzzifyMOMWithResolution_def valve_ne valve_domain)
  have c: "mom_spec valve nearly_tied 2 = Inr 1"
    by (simp add: mom_spec_def valve_ne valve_peak valve_points valve_clip epsilon_def mean_def)
  have d: "map (\<lambda>x. memberships_loop valve nearly_tied_mirrored x 0) [0, 1, 2] =
        [1 / 2 + 1 / 10000000000, 1 / 2, 1 / 2]"
    by (simp add: valve_mirrored_loop valve_mirrored_clip)
  have "mom_loop valve nearly_tied_mirrored 2 1 0 0 [] = (1 / 2 + 1 / 10000000000, [0, 1, 2])"
    by (simp add: mom_loop.simps valve_mirrored_loop valve_domain valve_mirrored_clip epsilon_def)
  then have e: "defuzzifyMOMWithResolution valve nearly_tied_mirrored 2 = Inr 1"
    by (simp add: defuzzifyMOMWithResolution_def valve_mirrored_ne valve_domain)
  have f: "mom_spec valve nearly_tied_mirrored 2 = Inr 1"
    by (simp add: mom_spec_def valve_mirrored_ne valve_mirrored_peak valve_points
        valve_mirrored_clip epsilon_def mean_def)
  show ?thesis
    using valve_points a b c d e f by simp
qed

text \<open>
  C4, as the code has it. First of maximum returns the first sample point, in ascending
  order, at which \<open>m\<close> attains its maximum over the scan (the last point at which the
  running maximum was exceeded, not the first); it fails exactly when the aggregation map
  is empty or \<open>m\<close> is \<open>0\<close> at every sample point.
\<close>

theorem defuzzifyFOM_first_of_maximum:
  assumes "0 < R" and "aggregation_for outputVar memberships"
  shows "defuzzifyFOMWithResolution outputVar memberships R =
           (if memberships = []
               \<or> list_all (\<lambda>x. clip_max outputVar memberships x = 0) (sample_points outputVar R)
            then Inl NoRulesFired
            else Inr (hd (filter
                   (\<lambda>x. clip_max outputVar memberships x = peak outputVar memberships R)
                   (sample_points outputVar R))))"
proof (cases "memberships = []")
  case True
  then show ?thesis by (simp add: defuzzifyFOMWithResolution_def)
next
  case False
  let ?step = "(MaxValue outputVar - MinValue outputVar) / of_int R"
  let ?x = "\<lambda>k. MinValue outputVar + of_int k * ?step"
  let ?m = "\<lambda>y. memberships_loop outputVar memberships y 0"
  let ?pk = "peak outputVar memberships R"
  have m: "memberships_loop outputVar memberships y 0 = clip_max outputVar memberships y" for y
    using memberships_loop_clip_max [OF assms(2) False] .
  have R0: "0 \<le> R" using assms(1) by simp
  have a: "0 = Max (insert 0 (?m ` set (map ?x [0..0 - 1])))"
    by simp
  have b: "MinValue outputVar = (if (0::real) = 0 then MinValue outputVar
      else hd (dropWhile (\<lambda>y. ?m y < 0) (map ?x [0..0 - 1])))"
    by simp
  have ins: "Max (insert 0 (clip_max outputVar memberships ` set (sample_points outputVar R))) = ?pk"
  proof -
    have "Max (insert 0 (clip_max outputVar memberships ` set (sample_points outputVar R))) =
        max 0 ?pk"
      unfolding peak_def using sample_points_nonempty [OF R0, of outputVar]
      by (intro Max_insert) simp_all
    then show ?thesis using peak_nonneg [OF assms(2) False R0] by simp
  qed
  have scan: "fom_loop outputVar memberships R ?step 0 0 (MinValue outputVar) =
      (?pk, if ?pk = 0 then MinValue outputVar
            else hd (dropWhile (\<lambda>x. clip_max outputVar memberships x < ?pk)
                       (sample_points outputVar R)))"
    using fom_loop_scan [OF _ _ a b, of R] assms(1)
    unfolding scan_points m ins by simp
  have same: "dropWhile (\<lambda>x. clip_max outputVar memberships x < ?pk) (sample_points outputVar R) =
      dropWhile (\<lambda>x. \<not> clip_max outputVar memberships x = ?pk) (sample_points outputVar R)"
  proof (intro dropWhile_cong refl)
    fix x assume "x \<in> set (sample_points outputVar R)"
    then have "clip_max outputVar memberships x \<le> ?pk" by (rule peak_upper)
    then show "(clip_max outputVar memberships x < ?pk) = (\<not> clip_max outputVar memberships x = ?pk)"
      by linarith
  qed
  have hd: "hd (dropWhile (\<lambda>x. clip_max outputVar memberships x < ?pk) (sample_points outputVar R)) =
      hd (filter (\<lambda>x. clip_max outputVar memberships x = ?pk) (sample_points outputVar R))"
    unfolding same using peak_attained [OF R0, of outputVar memberships]
    by (rule hd_dropWhile_filter)
  show ?thesis
    using assms(1) False peak_zero_iff [OF assms(2) False R0]
    by (simp add: defuzzifyFOMWithResolution_def scan hd)
qed

theorem defuzzifyFOM_first_of_maximum_witness:
  "defuzzifyFOMWithResolution fan_speed low_half_high_full 4 = Inr 75"
  using defuzzifyFOM_first_of_maximum [of 4 fan_speed low_half_high_full]
  by (simp add: fan_agg fan_ne fan_points fan_clip fan_peak)

text \<open>
  C4 as stated fails: over the sample points \<open>0, 25, 50, 75, 100\<close> with memberships
  \<open>0, 1/4, 0, 1/2, 0\<close> the first point that exceeds everything seen before it is \<open>25\<close>,
  and the code returns \<open>75\<close>.
\<close>

theorem defuzzifyFOM_not_first_exceeding:
  "sample_points fan_speed 4 = [0, 25, 50, 75, 100]
   \<and> map (\<lambda>x. memberships_loop fan_speed low_half_high_full x 0) [0, 25, 50, 75, 100] =
        [0, 1 / 4, 0, 1 / 2, 0]
   \<and> defuzzifyFOMWithResolution fan_speed low_half_high_full 4 = Inr 75
   \<and> fom_spec fan_speed low_half_high_full 4 = Inr 25"
proof -
  have "map (\<lambda>x. memberships_loop fan_speed low_half_high_full x 0) [0, 25, 50, 75, 100] =
        [0, 1 / 4, 0, 1 / 2, 0]"
    by (simp add: fan_loop fan_clip)
  moreover
  have "fom_loop fan_speed low_half_high_full 4 25 0 0 0 = (1 / 2, 75)"
    by (simp add: fom_loop.simps fan_loop fan_domain fan_clip)
  then have "defuzzifyFOMWithResolution fan_speed low_half_high_full 4 = Inr 75"
    by (simp add: defuzzifyFOMWithResolution_def fan_ne fan_domain)
  moreover have "fom_spec fan_speed low_half_high_full 4 = Inr 25"
  proof -
    have sp: "sample_point fan_speed 4 0 = 0" "sample_point fan_speed 4 1 = 25"
      by (simp_all add: sample_point_def fan_domain)
    show ?thesis
      by (simp add: fom_spec_def fan_ne fan_points fan_clip upto.simps sp)
  qed
  ultimately show ?thesis using fan_points by simp
qed


subsection \<open>Inference: the text of the errors, validation and the kinds of failure\<close>

lemma digits_10: "digits_of_nat 10 = ''10''" "digits_of_nat 0 = ''0''" "digits_of_nat 50 = ''50''"
  "digits_of_nat 100 = ''100''"
  by (simp_all add: digits_of_nat.simps digit_char_def)

lemma fmt_examples:
  "fmt_f 2 (- 10) = ''-10.00''" "fmt_f 2 0 = ''0.00''" "fmt_f 2 50 = ''50.00''"
  "fmt_f 2 100 = ''100.00''"
  by (simp_all add: fmt_f_def round_half_even_def digit_char_def upt_rec digits_10)

lemma validate_inputs_pass:
  "list_all (provided_in_domain inputs) ivs \<Longrightarrow> validate_inputs ivs inputs = None"
proof (induction ivs)
  case Nil
  then show ?case by simp
next
  case (Cons entry ivs)
  obtain varName inputVar where e: "entry = (varName, inputVar)" by (cases entry)
  from Cons.prems obtain x where "map_of inputs varName = Some x" "in_domain inputVar x"
    by (auto simp: e provided_in_domain_def split: option.splits)
  then show ?case
    using Cons by (auto simp: e in_domain_def)
qed

lemma validate_inputs_first_violation:
  assumes "list_all (provided_in_domain inputs) pre"
  shows "validate_inputs (pre @ (n, v) # post) inputs =
     (case map_of inputs n of
        None \<Rightarrow> Some (MissingInput n)
      | Some x \<Rightarrow>
          (if x < MinValue v \<or> x > MaxValue v
           then Some (OutOfBounds x n (MinValue v) (MaxValue v))
           else validate_inputs post inputs))"
  using assms
proof (induction pre)
  case Nil
  then show ?case by simp
next
  case (Cons entry pre)
  obtain varName inputVar where e: "entry = (varName, inputVar)" by (cases entry)
  from Cons.prems obtain x where "map_of inputs varName = Some x" "in_domain inputVar x"
    by (auto simp: e provided_in_domain_def split: option.splits)
  then show ?case
    using Cons by (auto simp: e in_domain_def)
qed

lemma fire_rules_error:
  "fire_rules rs mm om = Inl err \<Longrightarrow> \<exists>re. err = RuleEvaluationFailed re"
  by (induction rs arbitrary: om) (auto split: sum.splits)

lemma defuzzify_outputs_error:
  "defuzzify_outputs fis ovs om results = Inl err \<Longrightarrow> \<exists>m de. err = DefuzzificationFailed m de"
proof (induction ovs arbitrary: results)
  case Nil
  then show ?case by simp
next
  case (Cons entry ovs)
  obtain varName outputVar where e: "entry = (varName, outputVar)" by (cases entry)
  show ?case
    using Cons.prems Cons.IH unfolding e
    by (auto split: sum.splits)
qed

lemma Infer_error_kinds:
  assumes "validate_inputs (InputVariables fis) inputs = None" and "Infer fis inputs = Inl err"
  shows "err = NoInputVariables \<or> err = NoOutputVariables \<or> err = NoRules
       \<or> (\<exists>re. err = RuleEvaluationFailed re) \<or> (\<exists>m de. err = DefuzzificationFailed m de)"
proof (cases "fire_rules (Rules fis) (fuzzify_inputs (InputVariables fis) inputs Map.empty)
                (init_outputs (OutputVariables fis) Map.empty)")
  case (Inl e)
  then show ?thesis
    using assms fire_rules_error [OF Inl] by (auto simp: Infer_def split: if_splits)
next
  case (Inr om)
  then show ?thesis
    using assms defuzzify_outputs_error [of fis "OutputVariables fis" om Map.empty err]
    by (auto simp: Infer_def split: if_splits)
qed

lemma Infer_after_validation:
  assumes "validate_inputs (InputVariables fis) inputs = None"
  shows "Infer fis inputs \<noteq> Inl (MissingInput m)"
    and "Infer fis inputs \<noteq> Inl (OutOfBounds x m lo hi)"
  using Infer_error_kinds [OF assms] by auto

lemma thermostat_configured: "configured thermostat"
  by (simp add: configured_def thermostat_def temperature_def fan_speed_def rule_cold_low_def
        rule_hot_high_def AddRule_def)

lemma thermostat_inputs: "InputVariables thermostat = [] @ (''Temperature'', temperature) # []"
  by (simp add: thermostat_def)

lemma temperature_domain: "MinValue temperature = 0" "MaxValue temperature = 50"
  by (simp_all add: temperature_def)

text \<open>
  C9, as the code has it. In a configured engine \<^verbatim>\<open>Infer\<close> stops at the first input
  variable, in the order in which the run iterates over the map of input variables, that is
  absent from the inputs or whose value lies strictly outside its domain. When that
  variable is absent the error text is exactly \<^verbatim>\<open>missing required input variable: \<close>
  followed by its name; when its value is outside the domain the text has the two-decimal
  form of \<^verbatim>\<open>input value -10.00 for variable 'Temperature' is out of bounds [0.00, 50.00]\<close>.
  Both ends of a domain are inside it, and when every input variable is provided with a
  value inside its domain \<^verbatim>\<open>Infer\<close> reports neither of the two errors.
\<close>

theorem Infer_input_validation:
  assumes "configured fis"
    and "InputVariables fis = pre @ (n, v) # post"
    and "list_all (provided_in_domain inputs) pre"
  shows "(map_of inputs n = None \<longrightarrow>
            Infer fis inputs = Inl (MissingInput n)
          \<and> error_text (MissingInput n) = ''missing required input variable: '' @ n)
       \<and> (\<forall>x. map_of inputs n = Some x \<and> (x < MinValue v \<or> MaxValue v < x) \<longrightarrow>
            Infer fis inputs = Inl (OutOfBounds x n (MinValue v) (MaxValue v))
          \<and> error_text (OutOfBounds x n (MinValue v) (MaxValue v)) =
              ''input value '' @ fmt_f 2 x @ '' for variable '' @ [CHR 0x27] @ n @ [CHR 0x27]
                @ '' is out of bounds ['' @ fmt_f 2 (MinValue v) @ '', ''
                @ fmt_f 2 (MaxValue v) @ '']'')
       \<and> in_domain v (MinValue v) \<and> in_domain v (MaxValue v)
       \<and> (valid_inputs fis inputs \<longrightarrow>
            (\<forall>m. Infer fis inputs \<noteq> Inl (MissingInput m))
          \<and> (\<forall>x m lo hi. Infer fis inputs \<noteq> Inl (OutOfBounds x m lo hi)))"
proof -
  from assms(1) have ne: "InputVariables fis \<noteq> []" "OutputVariables fis \<noteq> []" "Rules fis \<noteq> []"
    and dom: "list_all (\<lambda>entry. MinValue (snd entry) < MaxValue (snd entry)) (InputVariables fis)"
    by (simp_all add: configured_def)
  have start: "Infer fis inputs = Inl err" if "validate_inputs (InputVariables fis) inputs = Some err"
    for err
    using ne that by (simp add: Infer_def)
  have first: "validate_inputs (InputVariables fis) inputs =
     (case map_of inputs n of
        None \<Rightarrow> Some (MissingInput n)
      | Some x \<Rightarrow>
          (if x < MinValue v \<or> x > MaxValue v
           then Some (OutOfBounds x n (MinValue v) (MaxValue v))
           else validate_inputs post inputs))"
    unfolding assms(2) using assms(3) by (rule validate_inputs_first_violation)
  have missing: "Infer fis inputs = Inl (MissingInput n)" if "map_of inputs n = None"
    using start first that by simp
  have outside: "Infer fis inputs = Inl (OutOfBounds x n (MinValue v) (MaxValue v))"
    if "map_of inputs n = Some x" "x < MinValue v \<or> MaxValue v < x" for x
    using start first that by auto
  have "MinValue v < MaxValue v"
    using dom unfolding assms(2) by simp
  then have ends: "in_domain v (MinValue v)" "in_domain v (MaxValue v)"
    by (simp_all add: in_domain_def)
  have valid: "Infer fis inputs \<noteq> Inl (MissingInput m)"
              "Infer fis inputs \<noteq> Inl (OutOfBounds x m lo hi)"
    if "valid_inputs fis inputs" for x m lo hi
    using Infer_after_validation [OF validate_inputs_pass] that
    by (simp_all add: valid_inputs_def)
  show ?thesis
    using missing outside ends valid by (simp add: error_text_def)
qed

theorem Infer_input_validation_witness:
  "Infer thermostat [] = Inl (MissingInput ''Temperature'')
   \<and> error_text (MissingInput ''Temperature'') = ''missing required input variable: Temperature''
   \<and> Infer thermostat [(''Temperature'', - 10)] = Inl (OutOfBounds (- 10) ''Temperature'' 0 50)
   \<and> error_text (OutOfBounds (- 10) ''Temperature'' 0 50) =
        ''input value -10.00 for variable 'Temperature' is out of bounds [0.00, 50.00]''
   \<and> in_domain temperature 0 \<and> in_domain temperature 50
   \<and> Infer thermostat [(''Temperature'', 0)] \<noteq> Inl (OutOfBounds 0 ''Temperature'' 0 50)
   \<and> Infer thermostat [(''Temperature'', 50)] \<noteq> Inl (OutOfBounds 50 ''Temperature'' 0 50)"
  using Infer_input_validation [OF thermostat_configured thermostat_inputs, of "[]"]
    Infer_input_validation [OF thermostat_configured thermostat_inputs, of "[(''Temperature'', - 10)]"]
    Infer_input_validation [OF thermostat_configured thermostat_inputs, of "[(''Temperature'', 0)]"]
    Infer_input_validation [OF thermostat_configured thermostat_inputs, of "[(''Temperature'', 50)]"]
  by (simp add: temperature_domain fmt_examples valid_inputs_def provided_in_domain_def
        thermostat_inputs in_domain_def)

text \<open>
  C9 as stated fails when two input variables are at fault: \<^verbatim>\<open>Temperature\<close> is absent
  from the inputs, and \<^verbatim>\<open>Infer\<close> fails with the out-of-bounds error of
  \<^verbatim>\<open>Humidity\<close>, which the iteration meets first.
\<close>

theorem Infer_reports_other_violation:
  "map_of [(''Humidity'', - 10)] ''Temperature'' = None
   \<and> Infer thermostat_two_inputs [(''Humidity'', - 10)] =
        Inl (OutOfBounds (- 10) ''Humidity'' 0 100)
   \<and> error_text (OutOfBounds (- 10) ''Humidity'' 0 100) =
        ''input value -10.00 for variable 'Humidity' is out of bounds [0.00, 100.00]''"
  by (simp add: Infer_def thermostat_two_inputs_def thermostat_def humidity_def error_text_def
        fmt_examples)

subsection \<open>Inference: the method names and extra inputs\<close>

lemma defuzzify_outputs_method_cong:
  assumes "\<And>ov ms. defuzzify (DefuzzMethod fis) ov ms (Resolution fis)
                     = defuzzify (DefuzzMethod fis') ov ms (Resolution fis')"
  shows "defuzzify_outputs fis ovs om results = defuzzify_outputs fis' ovs om results"
proof (induction ovs arbitrary: results)
  case Nil
  then show ?case by simp
next
  case (Cons entry ovs)
  obtain varName outputVar where e: "entry = (varName, outputVar)" by (cases entry)
  have step: "defuzzify_outputs fis ovs om (results(varName \<mapsto> r)) =
              defuzzify_outputs fis' ovs om (results(varName \<mapsto> r))" for r
    by (rule Cons.IH)
  show ?case
    unfolding e by (simp only: defuzzify_outputs.simps assms step)
qed

lemma validate_inputs_cong:
  assumes "\<And>n. n \<in> fst ` set ivs \<Longrightarrow> map_of a n = map_of b n"
  shows "validate_inputs ivs a = validate_inputs ivs b"
  using assms
proof (induction ivs)
  case Nil
  then show ?case by simp
next
  case (Cons entry ivs)
  obtain varName inputVar where e: "entry = (varName, inputVar)" by (cases entry)
  have "map_of a varName = map_of b varName" using Cons.prems by (simp add: e)
  moreover have "validate_inputs ivs a = validate_inputs ivs b"
    using Cons.IH Cons.prems by simp
  ultimately show ?case by (auto simp: e split: option.splits)
qed

lemma fuzzify_inputs_lookup:
  "distinct (map fst inputs) \<Longrightarrow>
   fuzzify_inputs ivs inputs mm n =
     (case map_of inputs n of
        None \<Rightarrow> mm n
      | Some x \<Rightarrow> (case map_of ivs n of None \<Rightarrow> mm n | Some v \<Rightarrow> Some (Fuzzify v x)))"
proof (induction inputs arbitrary: mm)
  case Nil
  then show ?case by simp
next
  case (Cons entry inputs)
  obtain varName crisp where e: "entry = (varName, crisp)" by (cases entry)
  from Cons.prems have d: "distinct (map fst inputs)" and fresh: "varName \<notin> fst ` set inputs"
    by (simp_all add: e)
  have none: "map_of inputs varName = None"
    using fresh by (simp add: map_of_eq_None_iff)
  show ?case
    using Cons.IH [OF d] none by (auto simp: e split: option.splits)
qed

lemma map_of_InputVariables_None:
  "map_of ivs n = None \<longleftrightarrow> n \<notin> fst ` set ivs"
  by (simp add: map_of_eq_None_iff)

lemma thermostat_fuzzify:
  "fuzzify_inputs (InputVariables thermostat) [(''Temperature'', 30)] Map.empty =
     [''Temperature'' \<mapsto> [''Cold'' \<mapsto> 0, ''Hot'' \<mapsto> 1 / 5]]"
  by (simp add: thermostat_def temperature_def Fuzzify_def Evaluate_set_def)

lemma thermostat_fire:
  "fire_rules (Rules thermostat) [''Temperature'' \<mapsto> [''Cold'' \<mapsto> 0, ''Hot'' \<mapsto> 1 / 5]]
     (init_outputs (OutputVariables thermostat) Map.empty) =
   Inr [''FanSpeed'' \<mapsto> [(''Low'', 0), (''High'', 1 / 5)]]"
  by (simp add: thermostat_def rule_cold_low_def rule_hot_high_def Evaluate_def
        MinOperator_Apply_def)

lemma thermostat_cog:
  "defuzzifyCOGWithResolution fan_speed [(''Low'', 0), (''High'', 1 / 5)] 4 = Inr 75"
  by (simp add: defuzzifyCOGWithResolution_def cog_loop.simps fan_speed_def Evaluate_set_def)

lemma thermostat_30: "Infer thermostat [(''Temperature'', 30)] = Inr [''FanSpeed'' \<mapsto> 75]"
proof -
  have v: "validate_inputs (InputVariables thermostat) [(''Temperature'', 30)] = None"
    by (simp add: thermostat_def temperature_def)
  have d: "defuzzify_outputs thermostat (OutputVariables thermostat)
      [''FanSpeed'' \<mapsto> [(''Low'', 0), (''High'', 1 / 5)]] Map.empty = Inr [''FanSpeed'' \<mapsto> 75]"
    using thermostat_cog by (simp add: thermostat_def defuzzify_def)
  have ne: "InputVariables thermostat \<noteq> []" "OutputVariables thermostat \<noteq> []"
    "Rules thermostat \<noteq> []"
    by (simp_all add: thermostat_def)
  show ?thesis
    unfolding Infer_def v thermostat_fuzzify thermostat_fire using ne d by simp
qed

text \<open>
  C8. With the method \<^verbatim>\<open>lom\<close> or \<^verbatim>\<open>som\<close>, \<^verbatim>\<open>Infer\<close> returns what it returns with
  the method \<^verbatim>\<open>fom\<close>, outputs and errors alike: the three names dispatch to the
  first-of-maximum defuzzifier.
\<close>

theorem Infer_lom_som_alias_fom:
  "Infer (fis\<lparr>DefuzzMethod := DefuzzLOM\<rparr>) inputs = Infer (fis\<lparr>DefuzzMethod := DefuzzFOM\<rparr>) inputs
   \<and> Infer (fis\<lparr>DefuzzMethod := DefuzzSOM\<rparr>) inputs = Infer (fis\<lparr>DefuzzMethod := DefuzzFOM\<rparr>) inputs
   \<and> defuzzify DefuzzFOM outputVar memberships R = defuzzifyFOMWithResolution outputVar memberships R
   \<and> defuzzify DefuzzLOM outputVar memberships R = defuzzifyFOMWithResolution outputVar memberships R
   \<and> defuzzify DefuzzSOM outputVar memberships R = defuzzifyFOMWithResolution outputVar memberships R"
proof -
  have d: "defuzzify DefuzzFOM ov ms r = defuzzifyFOMWithResolution ov ms r"
          "defuzzify DefuzzLOM ov ms r = defuzzifyFOMWithResolution ov ms r"
          "defuzzify DefuzzSOM ov ms r = defuzzifyFOMWithResolution ov ms r" for ov ms r
    by (simp_all add: defuzzify_def DefuzzCOG_def DefuzzMOM_def DefuzzFOM_def DefuzzLOM_def
          DefuzzSOM_def)
  have lom: "defuzzify_outputs (fis\<lparr>DefuzzMethod := DefuzzLOM\<rparr>) ovs om rs =
             defuzzify_outputs (fis\<lparr>DefuzzMethod := DefuzzFOM\<rparr>) ovs om rs" for ovs om rs
    by (rule defuzzify_outputs_method_cong) (simp add: d)
  have som: "defuzzify_outputs (fis\<lparr>DefuzzMethod := DefuzzSOM\<rparr>) ovs om rs =
             defuzzify_outputs (fis\<lparr>DefuzzMethod := DefuzzFOM\<rparr>) ovs om rs" for ovs om rs
    by (rule defuzzify_outputs_method_cong) (simp add: d)
  show ?thesis
    by (simp add: Infer_def lom som d cong: option.case_cong sum.case_cong)
qed

text \<open>
  C10. Entries added to the inputs under keys that are not names of input variables of the
  engine change nothing: \<^verbatim>\<open>Infer\<close> returns the same outputs, or the same failure, as
  without them, whatever their values.
\<close>

theorem Infer_ignores_extra_inputs:
  assumes "adds_unconfigured fis inputs inputs'"
  shows "Infer fis inputs' = Infer fis inputs"
proof -
  from assms have d: "distinct (map fst inputs)" and d': "distinct (map fst inputs')"
    and sub: "\<And>k x. (k, x) \<in> set inputs \<Longrightarrow> map_of inputs' k = Some x"
    and extra: "\<And>k x. (k, x) \<in> set inputs' \<Longrightarrow> map_of inputs k = None \<Longrightarrow>
                  map_of (InputVariables fis) k = None"
    by (auto simp: adds_unconfigured_def list_all_iff)
  have agree: "map_of inputs' n = map_of inputs n" if cfg: "n \<in> fst ` set (InputVariables fis)" for n
  proof (cases "map_of inputs n")
    case None
    have known: "map_of (InputVariables fis) n \<noteq> None"
      using cfg map_of_InputVariables_None [of "InputVariables fis" n] by simp
    show ?thesis
    proof (cases "map_of inputs' n")
      case (Some x)
      then have "(n, x) \<in> set inputs'" by (rule map_of_SomeD)
      from extra [OF this None] known show ?thesis by simp
    qed (simp add: None)
  next
    case (Some x)
    then have "(n, x) \<in> set inputs" by (rule map_of_SomeD)
    from sub [OF this] Some show ?thesis by simp
  qed
  have v: "validate_inputs (InputVariables fis) inputs' = validate_inputs (InputVariables fis) inputs"
    by (rule validate_inputs_cong) (rule agree)
  have f: "fuzzify_inputs (InputVariables fis) inputs' Map.empty =
           fuzzify_inputs (InputVariables fis) inputs Map.empty"
  proof
    fix n
    show "fuzzify_inputs (InputVariables fis) inputs' Map.empty n =
          fuzzify_inputs (InputVariables fis) inputs Map.empty n"
    proof (cases "map_of (InputVariables fis) n")
      case None
      then show ?thesis
        by (simp add: fuzzify_inputs_lookup [OF d] fuzzify_inputs_lookup [OF d'] split: option.splits)
    next
      case (Some v)
      then have "n \<in> fst ` set (InputVariables fis)"
        using map_of_InputVariables_None [of "InputVariables fis" n] by simp
      then have "map_of inputs' n = map_of inputs n" by (rule agree)
      then show ?thesis
        by (simp add: fuzzify_inputs_lookup [OF d] fuzzify_inputs_lookup [OF d'])
    qed
  qed
  show ?thesis
    unfolding Infer_def v f ..
qed

theorem Infer_ignores_extra_inputs_witness:
  "Infer thermostat [(''Pressure'', 1000), (''Temperature'', 30), (''Humidity'', - 5)] =
     Inr [''FanSpeed'' \<mapsto> 75]
   \<and> Infer thermostat [(''Temperature'', 30)] = Inr [''FanSpeed'' \<mapsto> 75]"
  using Infer_ignores_extra_inputs [of thermostat "[(''Temperature'', 30)]"
      "[(''Pressure'', 1000), (''Temperature'', 30), (''Humidity'', - 5)]"]
    thermostat_30
  by (simp add: adds_unconfigured_def thermostat_def)

subsection \<open>Inference: no rule fired\<close>

lemma Fuzzify_loop_range:
  assumes "\<And>s d. result s = Some d \<Longrightarrow> 0 \<le> d \<and> d \<le> 1"
    and "Fuzzify_loop sets x result s = Some d"
  shows "0 \<le> d \<and> d \<le> 1"
  using assms
proof (induction sets arbitrary: result)
  case Nil
  then show ?case by simp
next
  case (Cons entry sets)
  obtain name fuzzySet where e: "entry = (name, fuzzySet)" by (cases entry)
  show ?case
  proof (rule Cons.IH [of "result(name \<mapsto> Evaluate_set fuzzySet x)"])
    fix s' d'
    assume "(result(name \<mapsto> Evaluate_set fuzzySet x)) s' = Some d'"
    then show "0 \<le> d' \<and> d' \<le> 1"
      using Cons.prems(1) Evaluate_set_range [of fuzzySet x]
      by (auto split: if_splits)
  next
    show "Fuzzify_loop sets x (result(name \<mapsto> Evaluate_set fuzzySet x)) s = Some d"
      using Cons.prems(2) by (simp add: e)
  qed
qed

lemma Fuzzify_range: "Fuzzify v x s = Some d \<Longrightarrow> 0 \<le> d \<and> d \<le> 1"
  unfolding Fuzzify_def by (rule Fuzzify_loop_range [of Map.empty]) simp_all

lemma fuzzify_inputs_range:
  "degrees_in_range mm \<Longrightarrow> degrees_in_range (fuzzify_inputs ivs inputs mm)"
proof (induction inputs arbitrary: mm)
  case Nil
  then show ?case by simp
next
  case (Cons entry inputs)
  obtain varName crisp where e: "entry = (varName, crisp)" by (cases entry)
  have "degrees_in_range (case map_of ivs varName of
          Some inputVar \<Rightarrow> mm(varName \<mapsto> Fuzzify inputVar crisp) | None \<Rightarrow> mm)"
    using Cons.prems Fuzzify_range
    by (auto simp: degrees_in_range_def split: option.splits if_splits)
  then show ?case
    unfolding e by (simp add: Cons.IH)
qed

lemma contributed_value_range:
  "degrees_in_range mm \<Longrightarrow> \<not> out_of_range (contributed_value mm c)"
  by (auto simp: degrees_in_range_def contributed_value_def out_of_range_def
      split: option.splits) fastforce+

lemma Evaluate_succeeds:
  assumes "Conditions r \<noteq> []" "degrees_in_range mm"
  shows "\<exists>s. Evaluate r mm = Inr s"
proof -
  let ?vs = "map (contributed_value mm) (Conditions r)"
  have ne: "?vs \<noteq> []" using assms(1) by simp
  have "set (operator_reads (Operator r) ?vs) \<subseteq> set ?vs"
    by (cases "Operator r") (auto simp: operator_reads_def dest: in_set_takeD)
  then have "filter out_of_range (operator_reads (Operator r) ?vs) = []"
    using contributed_value_range [OF assms(2)] by (auto simp: filter_empty_conv)
  then have "snd (Apply (Operator r) ?vs) = None"
    using Apply_reads [OF ne, of "Operator r"] by simp
  then show ?thesis
    using assms(1) by (simp add: Evaluate_def Evaluate_loop_map case_prod_beta Let_def)
qed

lemma fire_rules_succeeds:
  assumes "\<And>r. r \<in> set rs \<Longrightarrow> Conditions r \<noteq> []" "degrees_in_range mm"
  shows "\<exists>om'. fire_rules rs mm om = Inr om'"
  using assms(1)
proof (induction rs arbitrary: om)
  case Nil
  then show ?case by simp
next
  case (Cons r rs)
  obtain s where s: "Evaluate r mm = Inr s"
    using Evaluate_succeeds [OF _ assms(2), of r] Cons.prems by auto
  have "\<exists>om'. fire_rules rs mm om'' = Inr om'" for om''
    using Cons.IH Cons.prems by simp
  then show ?case
    by (simp add: s)
qed

lemma configured_rules_have_conditions:
  assumes "configured fis" "r \<in> set (Rules fis)"
  shows "Conditions r \<noteq> []"
proof -
  have "case AddRule fis r of Inr fis' \<Rightarrow> True | Inl err \<Rightarrow> False"
    using assms by (simp add: configured_def list_all_iff)
  then show ?thesis
    by (auto simp: AddRule_def split: if_splits)
qed

lemma memberships_loop_zero:
  "list_all (\<lambda>entry. snd entry = 0) ms \<Longrightarrow> memberships_loop ov ms y 0 = 0"
proof (induction ms)
  case Nil
  then show ?case by simp
next
  case (Cons entry ms)
  obtain n s where e: "entry = (n, s)" by (cases entry)
  show ?case
    using Cons by (simp add: e Let_def split: option.splits)
qed

lemma effective_resolution_pos: "0 < (if R \<le> 0 then DefaultResolution else R)"
  by (simp add: DefaultResolution_def)

lemma defuzzifyCOG_zero:
  assumes "list_all (\<lambda>entry. snd entry = 0) ms"
  shows "defuzzifyCOGWithResolution ov ms R = Inl NoRulesFired"
  by (simp add: defuzzifyCOGWithResolution_def Let_def cog_loop_sums
      memberships_loop_zero [OF assms])

lemma defuzzifyMOM_zero:
  assumes "list_all (\<lambda>entry. snd entry = 0) ms"
  shows "defuzzifyMOMWithResolution ov ms R = Inl NoRulesFired"
proof -
  define R' where "R' = (if R \<le> 0 then DefaultResolution else R)"
  define step where "step = (MaxValue ov - MinValue ov) / of_int R'"
  have pos: "0 < R'" unfolding R'_def by (rule effective_resolution_pos)
  have z: "memberships_loop ov ms y 0 = 0" for y
    using memberships_loop_zero [OF assms] .
  have first: "mom_loop ov ms R' step 0 0 [] = mom_loop ov ms R' step 1 0 [MinValue ov]"
    using pos by (subst mom_loop.simps) (simp add: z)
  have a: "(0::real) = Max ((\<lambda>y. memberships_loop ov ms y 0)
        ` set (map (\<lambda>k. MinValue ov + of_int k * step) [0..1 - 1]))"
    by (simp add: z)
  have b: "[MinValue ov] = filter (\<lambda>y. 0 - memberships_loop ov ms y 0 < epsilon)
        (dropWhile (\<lambda>y. memberships_loop ov ms y 0 < 0)
          (map (\<lambda>k. MinValue ov + of_int k * step) [0..1 - 1]))"
    using epsilon_pos by (simp add: z)
  have ne: "[0..R'] \<noteq> []" using pos by simp
  have "fst (mom_loop ov ms R' step 0 0 []) = 0"
    unfolding first using mom_loop_scan [OF _ _ a b, of R'] pos ne by (simp add: z image_constant_conv)
  then show ?thesis
    by (simp add: defuzzifyMOMWithResolution_def Let_def R'_def step_def case_prod_beta)
qed

lemma defuzzifyFOM_zero:
  assumes "list_all (\<lambda>entry. snd entry = 0) ms"
  shows "defuzzifyFOMWithResolution ov ms R = Inl NoRulesFired"
proof -
  define R' where "R' = (if R \<le> 0 then DefaultResolution else R)"
  define step where "step = (MaxValue ov - MinValue ov) / of_int R'"
  have pos: "0 < R'" unfolding R'_def by (rule effective_resolution_pos)
  have z: "memberships_loop ov ms y 0 = 0" for y
    using memberships_loop_zero [OF assms] .
  have a: "(0::real) = Max (insert 0 ((\<lambda>y. memberships_loop ov ms y 0)
        ` set (map (\<lambda>k. MinValue ov + of_int k * step) [0..0 - 1])))"
    by simp
  have b: "MinValue ov = (if (0::real) = 0 then MinValue ov
        else hd (dropWhile (\<lambda>y. memberships_loop ov ms y 0 < 0)
          (map (\<lambda>k. MinValue ov + of_int k * step) [0..0 - 1])))"
    by simp
  have ne: "[0..R'] \<noteq> []" using pos by simp
  have "fst (fom_loop ov ms R' step 0 0 (MinValue ov)) = 0"
    using fom_loop_scan [OF _ _ a b, of R'] pos ne by (simp add: z image_constant_conv)
  then show ?thesis
    by (simp add: defuzzifyFOMWithResolution_def Let_def R'_def step_def case_prod_beta)
qed

lemma defuzzify_zero:
  assumes "list_all (\<lambda>entry. snd entry = 0) ms"
  shows "defuzzify method ov ms R = Inl NoRulesFired"
  by (simp add: defuzzify_def defuzzifyCOG_zero [OF assms] defuzzifyMOM_zero [OF assms]
      defuzzifyFOM_zero [OF assms])

lemma defuzzify_outputs_fails:
  assumes "(n, ov) \<in> set ovs"
    and "defuzzify (DefuzzMethod fis) ov (case om n of Some m \<Rightarrow> m | None \<Rightarrow> []) (Resolution fis)
           = Inl NoRulesFired"
  shows "\<exists>m\<in>fst ` set ovs. defuzzify_outputs fis ovs om results = Inl (DefuzzificationFailed m NoRulesFired)"
  using assms(1)
proof (induction ovs arbitrary: results)
  case Nil
  then show ?case by simp
next
  case (Cons entry ovs)
  obtain varName outputVar where e: "entry = (varName, outputVar)" by (cases entry)
  show ?case
  proof (cases "defuzzify (DefuzzMethod fis) outputVar
                  (case om varName of Some m \<Rightarrow> m | None \<Rightarrow> []) (Resolution fis)")
    case (Inl err)
    have "err = NoRulesFired" by (cases err) simp
    then show ?thesis using Inl by (simp add: e)
  next
    case (Inr result)
    have "(n, ov) \<noteq> (varName, outputVar)"
    proof
      assume "(n, ov) = (varName, outputVar)"
      then have "defuzzify (DefuzzMethod fis) outputVar
          (case om varName of Some m \<Rightarrow> m | None \<Rightarrow> []) (Resolution fis) = Inl NoRulesFired"
        using assms(2) by simp
      with Inr show False by simp
    qed
    then have "(n, ov) \<in> set ovs" using Cons.prems unfolding e by auto
    then obtain m where m: "m \<in> fst ` set ovs"
      "defuzzify_outputs fis ovs om (results(varName \<mapsto> result)) =
         Inl (DefuzzificationFailed m NoRulesFired)"
      using Cons.IH by blast
    have "defuzzify_outputs fis (entry # ovs) om results =
        defuzzify_outputs fis ovs om (results(varName \<mapsto> result))"
      unfolding e using Inr by simp
    then have "defuzzify_outputs fis (entry # ovs) om results =
        Inl (DefuzzificationFailed m NoRulesFired)"
      using m(2) by (rule trans)
    moreover have "m \<in> fst ` set (entry # ovs)" using m(1) by simp
    ultimately show ?thesis by blast
  qed
qed

lemma thermostat_aggregation_0:
  "aggregation_of thermostat [(''Temperature'', 0)] ''FanSpeed'' = [(''Low'', 0), (''High'', 0)]"
  by (simp add: aggregation_of_def thermostat_def temperature_def Fuzzify_def Evaluate_set_def
      rule_cold_low_def rule_hot_high_def Evaluate_def MinOperator_Apply_def)

lemma thermostat_valid_0: "valid_inputs thermostat [(''Temperature'', 0)]"
  by (simp add: valid_inputs_def provided_in_domain_def in_domain_def thermostat_def
      temperature_def)

lemma thermostat_outputs: "OutputVariables thermostat = [(''FanSpeed'', fan_speed)]"
  by (simp add: thermostat_def)

text \<open>
  C5. In a configured engine run on valid inputs, when the aggregation map of some output
  variable is empty or holds only strengths equal to \<open>0\<close>, \<^verbatim>\<open>Infer\<close> fails as a whole
  with the defuzzification failure "no rules fired" of an output variable, and returns no
  output map.
\<close>

theorem Infer_no_rule_fired:
  assumes "configured fis" and "valid_inputs fis inputs"
    and "(varName, outputVar) \<in> set (OutputVariables fis)"
    and "aggregation_of fis inputs varName = []
         \<or> list_all (\<lambda>entry. snd entry = 0) (aggregation_of fis inputs varName)"
  shows "\<exists>failed\<in>fst ` set (OutputVariables fis).
           Infer fis inputs = Inl (DefuzzificationFailed failed NoRulesFired)"
proof -
  let ?mm = "fuzzify_inputs (InputVariables fis) inputs Map.empty"
  from assms(1) have ne: "InputVariables fis \<noteq> []" "OutputVariables fis \<noteq> []" "Rules fis \<noteq> []"
    by (simp_all add: configured_def)
  have v: "validate_inputs (InputVariables fis) inputs = None"
    using assms(2) unfolding valid_inputs_def by (rule validate_inputs_pass)
  have "degrees_in_range Map.empty" by (simp add: degrees_in_range_def)
  then have rng: "degrees_in_range ?mm" by (rule fuzzify_inputs_range)
  obtain om where om: "fire_rules (Rules fis) ?mm (init_outputs (OutputVariables fis) Map.empty) = Inr om"
    using fire_rules_succeeds [OF configured_rules_have_conditions [OF assms(1)] rng] by blast
  have agg: "aggregation_of fis inputs varName = (case om varName of Some m \<Rightarrow> m | None \<Rightarrow> [])"
    by (simp add: aggregation_of_def om)
  have "list_all (\<lambda>entry. snd entry = 0) (aggregation_of fis inputs varName)"
    using assms(4) by auto
  then have "defuzzify (DefuzzMethod fis) outputVar
      (case om varName of Some m \<Rightarrow> m | None \<Rightarrow> []) (Resolution fis) = Inl NoRulesFired"
    unfolding agg by (rule defuzzify_zero)
  from defuzzify_outputs_fails [of varName outputVar "OutputVariables fis" fis om Map.empty,
      OF assms(3) this] show ?thesis
    using ne by (simp add: Infer_def v om)
qed

theorem Infer_no_rule_fired_witness:
  "Infer thermostat [(''Temperature'', 0)] = Inl (DefuzzificationFailed ''FanSpeed'' NoRulesFired)"
  using Infer_no_rule_fired [OF thermostat_configured thermostat_valid_0, of "''FanSpeed''" fan_speed]
  by (simp add: thermostat_aggregation_0 thermostat_outputs)

end
